theory Spec2Isabelle
  imports Complex_Main "HOL-Library.Sublist"
begin

section \<open>Strings of the monitor package\<close>

text \<open>
  A Go \<open>string\<close> is a sequence of bytes; it is modelled as \<open>string\<close> (a list of
  characters), \<open>len\<close> as \<open>length\<close>.  A slice expression \<open>s[i:j]\<close> panics unless
  \<open>0 \<le> i \<le> j \<le> len(s)\<close>; the panic is the value \<open>None\<close>.  Go's \<open>int\<close> is
  modelled as \<open>int\<close>: the indices that occur are bounded by the length of a string.
\<close>

definition slice :: "string \<Rightarrow> int \<Rightarrow> int \<Rightarrow> string option" where
  "slice s i j =
     (if 0 \<le> i \<and> i \<le> j \<and> j \<le> int (length s)
      then Some (take (nat (j - i)) (drop (nat i) s))
      else None)"

text \<open>
  \<open>hasSubstring\<close>: the loop \<open>for i := 0; i <= len(s)-len(substr); i++\<close>, with the
  loop counter as argument.
\<close>

function hasSubstring_loop :: "string \<Rightarrow> string \<Rightarrow> int \<Rightarrow> bool option" where
  "hasSubstring_loop s substr i =
     (if i \<le> int (length s) - int (length substr)
      then (case slice s i (i + int (length substr)) of
              None \<Rightarrow> None
            | Some w \<Rightarrow> if w = substr then Some True
                        else hasSubstring_loop s substr (i + 1))
      else Some False)"
  by pat_completeness auto
termination
  by (relation "measure (\<lambda>(s, substr, i). nat (int (length s) - int (length substr) + 1 - i))")
     auto

declare hasSubstring_loop.simps [simp del]

definition hasSubstring :: "string \<Rightarrow> string \<Rightarrow> bool option" where
  "hasSubstring s substr = hasSubstring_loop s substr 0"

text \<open>
  \<open>contains\<close>: Go's \<open>&&\<close> and \<open>||\<close> evaluate their right operand only when the left
  one does not decide the result; the nesting below is that evaluation order, so a
  slice expression is evaluated exactly when the source evaluates it.
\<close>

definition contains :: "string \<Rightarrow> string \<Rightarrow> bool option" where
  "contains s substr =
     (if \<not> length s \<ge> length substr then Some False
      else if s = substr then Some True
      else if \<not> length s > length substr then Some False
      else (case slice s 0 (int (length substr)) of
              None \<Rightarrow> None
            | Some p \<Rightarrow>
                if p = substr then Some True
                else (case slice s (int (length s) - int (length substr)) (int (length s)) of
                        None \<Rightarrow> None
                      | Some q \<Rightarrow>
                          if q = substr then Some True
                          else if \<not> length s > length substr then Some False
                          else hasSubstring s substr)))"

section \<open>Data model (package models)\<close>

text \<open>
  \<open>IncidentType\<close> is a Go string type with four named constants; functions that
  switch on it have a default branch, so any string is a possible class.
  \<open>IncidentStatus\<close> is only ever assigned and compared with its five constants and is
  modelled as an enumeration.  Times are natural numbers (a logical clock).
\<close>

type_synonym IncidentType = string

definition ServiceDown :: IncidentType where "ServiceDown = ''SERVICE_DOWN''"

definition ConfigError :: IncidentType where "ConfigError = ''CONFIG_ERROR''"

definition ResourceExhaustion :: IncidentType where "ResourceExhaustion = ''RESOURCE_EXHAUSTION''"

definition DependencyFailure :: IncidentType where "DependencyFailure = ''DEPENDENCY_FAILURE''"

datatype IncidentStatus =
  StatusDetected | StatusAnalyzing | StatusFixing | StatusResolved | StatusFailed

record Resolution =
  FixType :: string
  Description :: string
  Steps :: "string list"
  Code :: string
  Success :: bool

record Incident =
  ID :: string
  Type :: IncidentType
  Status :: IncidentStatus
  DetectedAt :: nat
  ResolvedAt :: "nat option"
  Symptoms :: "string list"
  Logs :: "string list"
  Diagnosis :: string
  Resolution :: "Resolution option"
  UsedCachedFix :: bool

text \<open>
  The fields of \<open>AIResponse\<close> carry the prefix \<open>ai\<close> where \<open>Resolution\<close> or
  \<open>Incident\<close> has a field of the same name.
\<close>

record AIResponse =
  aiDiagnosis :: string
  aiFixType :: string
  FixSteps :: "string list"
  aiCode :: string
  Confidence :: rat

record HealthStatus =
  Healthy :: bool
  Timestamp :: nat
  Message :: string
  StatusCode :: int

type_synonym error = string

section \<open>The detector (package monitor)\<close>

subsection \<open>Decoded JSON\<close>

text \<open>
  \<open>fetchServiceStatus\<close> decodes the status document into a
  \<open>map[string]interface{}\<close>.  A decoded value is a \<open>json\<close>; an object is an
  association list read with \<open>map_of\<close>.  The code never reads a number, only the
  dynamic type of a value.
\<close>

datatype json =
  JNull | JBool bool | JNum int | JStr string | JArr "json list" | JObj "(string \<times> json) list"

type_synonym jobj = "(string \<times> json) list"

text \<open>What the HTTP request for \<open>/status\<close> gives: the two failures, or a decoded document.\<close>

datatype status_reply = GetFailed | DecodeFailed | Decoded jobj

definition fetchServiceStatus :: "status_reply \<Rightarrow> jobj" where
  "fetchServiceStatus reply =
     (case reply of GetFailed \<Rightarrow> [] | DecodeFailed \<Rightarrow> [] | Decoded status \<Rightarrow> status)"

definition fetchLogs :: "status_reply \<Rightarrow> string list" where
  "fetchLogs reply =
     (let status = fetchServiceStatus reply in
      case map_of status ''recent_logs'' of
        Some (JArr logs) \<Rightarrow> concat (map (\<lambda>l. case l of JStr str \<Rightarrow> [str] | _ \<Rightarrow> []) logs)
      | _ \<Rightarrow> [])"

subsection \<open>Formatting\<close>

text \<open>The verb \<open>%d\<close> of \<open>fmt.Sprintf\<close>: decimal digits, a minus sign when negative.\<close>

fun digits :: "nat \<Rightarrow> string" where
  "digits n =
     (if n < 10 then [''0123456789'' ! n]
      else digits (n div 10) @ [''0123456789'' ! (n mod 10)])"

declare digits.simps [simp del]

definition show_int :: "int \<Rightarrow> string" where
  "show_int i = (if i < 0 then CHR ''-'' # digits (nat (- i)) else digits (nat i))"

subsection \<open>Classification: \<open>analyzeSymptoms\<close>\<close>

text \<open>
  Each block of \<open>analyzeSymptoms\<close> that can return early is a function giving
  \<open>Some (class, symptom)\<close> when it returns and \<open>None\<close> when control falls through.
\<close>

definition rule_database_url :: "jobj \<Rightarrow> (IncidentType \<times> string) option" where
  "rule_database_url config =
     (case map_of config ''database_url'' of
        None \<Rightarrow> None
      | Some dbURL \<Rightarrow>
          (case dbURL of
             JStr str \<Rightarrow>
               if str = ''invalid::url::format'' \<or> str = []
               then Some (ConfigError, ''Invalid database URL configuration detected'')
               else if str = ''unreachable-host:9999''
               then Some (DependencyFailure, ''Database host unreachable'')
               else None
           | _ \<Rightarrow> None))"

definition rule_timeout :: "jobj \<Rightarrow> (IncidentType \<times> string) option" where
  "rule_timeout config =
     (case map_of config ''timeout'' of
        None \<Rightarrow> None
      | Some timeout \<Rightarrow>
          (case timeout of
             JStr str \<Rightarrow>
               if str = ''not-a-number''
               then Some (ConfigError, ''Invalid timeout configuration detected'')
               else None
           | _ \<Rightarrow> None))"

definition rule_config :: "jobj \<Rightarrow> (IncidentType \<times> string) option" where
  "rule_config status =
     (case map_of status ''config'' of
        Some (JObj config) \<Rightarrow>
          (case rule_database_url config of
             Some r \<Rightarrow> Some r
           | None \<Rightarrow> rule_timeout config)
      | _ \<Rightarrow> None)"

definition rule_running :: "jobj \<Rightarrow> (IncidentType \<times> string) option" where
  "rule_running status =
     (case map_of status ''running'' of
        Some (JBool running) \<Rightarrow>
          if \<not> running then Some (ServiceDown, ''Service process not running'') else None
      | _ \<Rightarrow> None)"

text \<open>
  \<open>a || b\<close> on results that may panic: \<open>b\<close> counts only when \<open>a\<close> returned false.
\<close>

definition or_else :: "bool option \<Rightarrow> bool option \<Rightarrow> bool option" where
  "or_else a b = (case a of None \<Rightarrow> None | Some True \<Rightarrow> Some True | Some False \<Rightarrow> b)"

text \<open>The loop over \<open>recent_logs\<close>: \<open>Some True\<close> when an entry holds a resource keyword.\<close>

fun scan_logs :: "json list \<Rightarrow> bool option" where
  "scan_logs [] = Some False"
| "scan_logs (logEntry # logs) =
     (case logEntry of
        JStr str \<Rightarrow>
          (case or_else (contains str ''resource'')
                  (or_else (contains str ''port blocked'') (contains str ''memory'')) of
             None \<Rightarrow> None
           | Some True \<Rightarrow> Some True
           | Some False \<Rightarrow> scan_logs logs)
      | _ \<Rightarrow> scan_logs logs)"

definition rule_logs :: "jobj \<Rightarrow> (IncidentType \<times> string) option option" where
  "rule_logs status =
     (case map_of status ''recent_logs'' of
        Some (JArr logs) \<Rightarrow>
          if length logs > 0
          then (case scan_logs logs of
                  None \<Rightarrow> None
                | Some True \<Rightarrow>
                    Some (Some (ResourceExhaustion, ''Resource exhaustion detected in logs''))
                | Some False \<Rightarrow> Some None)
          else Some None
      | _ \<Rightarrow> Some None)"

text \<open>
  \<open>analyzeSymptoms\<close> on a health sample and the reply to its status request.  The
  result is \<open>None\<close> when a slice expression of \<open>contains\<close> panics.
\<close>

definition analyzeSymptoms ::
  "HealthStatus \<Rightarrow> status_reply \<Rightarrow> (IncidentType \<times> string list) option" where
  "analyzeSymptoms health reply =
     (let symptoms = [''Health check returned status code: '' @ show_int (StatusCode health),
                      Message health];
          status = fetchServiceStatus reply
      in case rule_config status of
           Some (ty, symptom) \<Rightarrow> Some (ty, symptoms @ [symptom])
         | None \<Rightarrow>
            (case rule_running status of
               Some (ty, symptom) \<Rightarrow> Some (ty, symptoms @ [symptom])
             | None \<Rightarrow>
                (case rule_logs status of
                   None \<Rightarrow> None
                 | Some (Some (ty, symptom)) \<Rightarrow> Some (ty, symptoms @ [symptom])
                 | Some None \<Rightarrow>
                     Some (ServiceDown, symptoms @ [''Service health check failing'']))))"

subsection \<open>The monitor loop\<close>

text \<open>
  One firing of the ticker, with everything the outside world answers during that
  iteration: the sample \<open>checkHealth\<close> returns, the replies to the status requests of
  \<open>analyzeSymptoms\<close> and of \<open>fetchLogs\<close>, the fresh UUID and the time.  The last four
  are read only when an incident is created.
\<close>

record Tick =
  sample :: HealthStatus
  status_reply :: status_reply
  logs_reply :: status_reply
  uuid :: string
  now :: nat

definition createIncident :: "Tick \<Rightarrow> HealthStatus \<Rightarrow> Incident option" where
  "createIncident t health =
     (case analyzeSymptoms health (status_reply t) of
        None \<Rightarrow> None
      | Some (incidentType, symptoms) \<Rightarrow>
          (let logs = fetchLogs (logs_reply t) in
           Some \<lparr>ID = uuid t, Type = incidentType, Status = StatusDetected,
                 DetectedAt = now t, ResolvedAt = None, Symptoms = symptoms, Logs = logs,
                 Diagnosis = [], Resolution = None, UsedCachedFix = False\<rparr>))"

text \<open>
  The body of the \<open>ticker.C\<close> case.  The state is \<open>previousHealthy\<close> and the incidents
  sent on \<open>incidentChannel\<close> so far, oldest first.  The recovery branch only logs.
\<close>

definition monitorStep :: "bool \<times> Incident list \<Rightarrow> Tick \<Rightarrow> (bool \<times> Incident list) option" where
  "monitorStep st t =
     (let previousHealthy = fst st; sent = snd st; health = sample t in
      if previousHealthy \<and> \<not> Healthy health
      then (case createIncident t health of
              None \<Rightarrow> None
            | Some incident \<Rightarrow> Some (Healthy health, sent @ [incident]))
      else Some (Healthy health, sent))"

text \<open>
  The loop runs until the context is cancelled or \<open>Stop\<close> is called; its input is the
  list of ticks it handles before that.
\<close>

fun monitor_iterate :: "bool \<times> Incident list \<Rightarrow> Tick list \<Rightarrow> (bool \<times> Incident list) option" where
  "monitor_iterate st [] = Some st"
| "monitor_iterate st (t # ts) =
     (case monitorStep st t of None \<Rightarrow> None | Some st' \<Rightarrow> monitor_iterate st' ts)"

definition monitorLoop :: "Tick list \<Rightarrow> Incident list option" where
  "monitorLoop ticks = map_option snd (monitor_iterate (True, []) ticks)"

section \<open>The target service (package service)\<close>

text \<open>
  The fields of \<open>TargetService\<close> that its methods read or write; \<open>server\<close> records
  whether the server pointer is non-nil.  The methods are modelled as they run one after
  the other under the service's lock.
\<close>

record TargetService =
  isHealthy :: bool
  isRunning :: bool
  config :: "string \<rightharpoonup> string"
  server :: bool

text \<open>
  The part of the process the executor acts on: the target service, the clock (in
  milliseconds; \<open>time.Sleep\<close> advances it) and how many results of \<open>server.Close\<close> have
  been consumed.
\<close>

record Machine =
  service :: TargetService
  clock :: nat
  nclose :: nat

text \<open>
  What the collaborators outside the orchestrator answer, each as a sequence indexed by
  the number of the call, and the orchestrator's \<open>useAI\<close> flag:
  \<open>probe k\<close> is the \<open>Healthy\<close> field of the \<open>k\<close>-th \<open>detector.VerifyResolution()\<close>,
  \<open>openai k\<close> the outcome of the \<open>k\<close>-th chat completion request, \<open>unmarshal\<close> is
  \<open>json.Unmarshal\<close> into an \<open>AIResponse\<close>, \<open>close_result k\<close> the error of the \<open>k\<close>-th
  \<open>server.Close()\<close> and \<open>save_result k\<close> the error of the \<open>k\<close>-th write of the memory file.
  \<open>ToLower\<close> and \<open>TrimSpace\<close> are the functions \<open>strings.ToLower\<close> and
  \<open>strings.TrimSpace\<close> of the Go library, which work on Unicode text; they are taken as
  they are, and every theorem holds whatever they return.
\<close>

datatype ai_reply = ApiError error | Choices "string list"

record Env =
  useAI :: bool
  probe :: "nat \<Rightarrow> bool"
  openai :: "nat \<Rightarrow> ai_reply"
  unmarshal :: "string \<Rightarrow> error + AIResponse"
  close_result :: "nat \<Rightarrow> error option"
  save_result :: "nat \<Rightarrow> error option"
  ToLower :: "string \<Rightarrow> string"
  TrimSpace :: "string \<Rightarrow> string"

definition sleep :: "nat \<Rightarrow> Machine \<Rightarrow> Machine" where
  "sleep d m = m\<lparr>clock := clock m + d\<rparr>"

definition Start :: "Machine \<Rightarrow> error option \<times> Machine" where
  "Start m =
     (let ts = service m in
      if isRunning ts then (Some ''service already running'', m)
      else (None, sleep 500 (m\<lparr>service := ts\<lparr>server := True, isRunning := True,
                                                  isHealthy := True\<rparr>\<rparr>)))"

definition Stop :: "Env \<Rightarrow> Machine \<Rightarrow> error option \<times> Machine" where
  "Stop env m =
     (let ts = service m in
      if \<not> isRunning ts then (Some ''service not running'', m)
      else (let m' = m\<lparr>service := ts\<lparr>isRunning := False, isHealthy := False\<rparr>\<rparr> in
            if server ts then (close_result env (nclose m'), m'\<lparr>nclose := nclose m' + 1\<rparr>)
            else (None, m')))"

definition IsHealthy :: "Machine \<Rightarrow> bool" where
  "IsHealthy m = (isHealthy (service m) \<and> isRunning (service m))"

definition SetConfig :: "string \<Rightarrow> string \<Rightarrow> Machine \<Rightarrow> Machine" where
  "SetConfig key val m = m\<lparr>service := (service m)\<lparr>config := (config (service m))(key \<mapsto> val)\<rparr>\<rparr>"

definition Restart :: "Env \<Rightarrow> Machine \<Rightarrow> error option \<times> Machine" where
  "Restart env m =
     (case Stop env m of
        (err, m1) \<Rightarrow>
          if err \<noteq> None \<and> isRunning (service m1) then (err, m1)
          else Start (sleep 1000 m1))"

section \<open>The executor (package remediation)\<close>

text \<open>\<open>strings.Contains\<close> is \<open>sublist\<close>: a contiguous occurrence.\<close>

definition executeRestart :: "Env \<Rightarrow> string list \<Rightarrow> Machine \<Rightarrow> error option \<times> Machine" where
  "executeRestart env steps m =
     (let m1 = (if IsHealthy m \<or> True then sleep 500 (snd (Stop env m)) else m) in
      case Start m1 of
        (Some err, m2) \<Rightarrow> (Some (''failed to start service: '' @ err), m2)
      | (None, m2) \<Rightarrow> (None, sleep 1000 m2))"

definition applyConfigStep :: "Env \<Rightarrow> string \<Rightarrow> Machine \<Rightarrow> error option \<times> Machine" where
  "applyConfigStep env step0 m =
     (let step = ToLower env step0 in
      if (sublist ''database_url'' step \<or> sublist ''database url'' step)
         \<and> (sublist ''localhost:5432'' step \<or> sublist ''restore'' step)
      then (None, SetConfig ''database_url'' ''localhost:5432'' m)
      else if sublist ''timeout'' step
         \<and> (sublist ''30s'' step \<or> sublist ''restore'' step \<or> sublist ''reset'' step)
      then (None, SetConfig ''timeout'' ''30s'' m)
      else if (sublist ''max_retries'' step \<or> sublist ''retries'' step)
         \<and> (sublist ''3'' step \<or> sublist ''restore'' step)
      then (None, SetConfig ''max_retries'' ''3'' m)
      else if sublist ''restart'' step then (None, m)
      else (None, m))"

fun applyConfigSteps :: "Env \<Rightarrow> string list \<Rightarrow> Machine \<Rightarrow> Machine" where
  "applyConfigSteps env [] m = m"
| "applyConfigSteps env (step # steps) m =
     applyConfigSteps env steps (snd (applyConfigStep env step m))"

definition executeConfigFix :: "Env \<Rightarrow> string list \<Rightarrow> Machine \<Rightarrow> error option \<times> Machine" where
  "executeConfigFix env steps m = Restart env (applyConfigSteps env steps m)"

definition executeCodeFix :: "Env \<Rightarrow> AIResponse \<Rightarrow> Machine \<Rightarrow> error option \<times> Machine" where
  "executeCodeFix env aiResponse m = Restart env m"

definition ExecuteFix ::
  "Env \<Rightarrow> AIResponse \<Rightarrow> Machine \<Rightarrow> (Resolution \<times> error option) \<times> Machine" where
  "ExecuteFix env aiResponse m =
     (let resolution = \<lparr>FixType = aiFixType aiResponse, Description = aiDiagnosis aiResponse,
                        Steps = FixSteps aiResponse, Code = aiCode aiResponse,
                        Success = False\<rparr>;
          r = (if aiFixType aiResponse = ''restart'' then executeRestart env (FixSteps aiResponse) m
               else if aiFixType aiResponse = ''config''
                 then executeConfigFix env (FixSteps aiResponse) m
               else if aiFixType aiResponse = ''code'' then executeCodeFix env aiResponse m
               else (Some (''unknown fix type: '' @ aiFixType aiResponse), m))
      in case r of
           (Some err, m') \<Rightarrow> ((resolution\<lparr>Success := False\<rparr>, Some err), m')
         | (None, m') \<Rightarrow> ((resolution\<lparr>Success := True\<rparr>, None), m'))"

definition ApplyCachedFix :: "Env \<Rightarrow> Resolution \<Rightarrow> Machine \<Rightarrow> error option \<times> Machine" where
  "ApplyCachedFix env cachedResolution m =
     (if FixType cachedResolution = ''restart'' then executeRestart env (Steps cachedResolution) m
      else if FixType cachedResolution = ''config''
        then executeConfigFix env (Steps cachedResolution) m
      else if FixType cachedResolution = ''code'' then Restart env m
      else (Some (''unknown fix type: '' @ FixType cachedResolution), m))"

section \<open>The state of the orchestrator's process\<close>

text \<open>
  An \<open>*models.Incident\<close> is an address in \<open>heap\<close>: the orchestrator and the map
  \<open>incidents\<close> of the store hold the same pointer, so a write through one is seen through
  the other.  A \<open>*models.Resolution\<close> is never written after it is attached to an incident
  and is held by value; \<open>fixes\<close> is the store's map from incident type to resolution, a
  Go map, with one value for a key.  \<open>nsave\<close>, \<open>nprobe\<close> and \<open>nai\<close> count the calls
  answered from \<open>Env\<close> so far.

  \<open>trace\<close> is a ghost field, written and never read: it lists, oldest first, every
  assignment to the \<open>Status\<close> field of an incident, every health probe of the
  verification loop with its result, every request to the diagnosis source and every write
  to \<open>fixes\<close>.
\<close>

datatype Event =
  SetStatus nat IncidentStatus | Probe bool | DiagnosisCall | LearnFix IncidentType

record World =
  heap :: "nat \<Rightarrow> Incident"
  incidents :: "string \<rightharpoonup> nat"
  "fixes" :: "string \<rightharpoonup> Resolution"
  nsave :: nat
  machine :: Machine
  nprobe :: nat
  nai :: nat
  trace :: "Event list"

definition modify :: "nat \<Rightarrow> (Incident \<Rightarrow> Incident) \<Rightarrow> World \<Rightarrow> World" where
  "modify incident f w = w\<lparr>heap := (heap w)(incident := f (heap w incident))\<rparr>"

text \<open>The assignment \<open>incident.Status = status\<close>.\<close>

definition assignStatus :: "nat \<Rightarrow> IncidentStatus \<Rightarrow> World \<Rightarrow> World" where
  "assignStatus incident status w =
     (modify incident (\<lambda>i. i\<lparr>Status := status\<rparr>) w)
       \<lparr>trace := trace w @ [SetStatus incident status]\<rparr>"

section \<open>The analyzer (package ai)\<close>

text \<open>\<open>strings.TrimPrefix\<close> and \<open>strings.TrimSuffix\<close>, which compare bytes.\<close>

definition TrimPrefix :: "string \<Rightarrow> string \<Rightarrow> string" where
  "TrimPrefix s pre = (if prefix pre s then drop (length pre) s else s)"

definition TrimSuffix :: "string \<Rightarrow> string \<Rightarrow> string" where
  "TrimSuffix s suf = (if suffix suf s then take (length s - length suf) s else s)"

definition validFixTypes :: "string \<rightharpoonup> bool" where
  "validFixTypes = [''restart'' \<mapsto> True, ''config'' \<mapsto> True, ''code'' \<mapsto> True]"

text \<open>The first lines of \<open>parseResponse\<close>, which strip a Markdown code fence.\<close>

definition cleanContent :: "Env \<Rightarrow> string \<Rightarrow> string" where
  "cleanContent env content =
     TrimSpace env (TrimSuffix (TrimPrefix (TrimPrefix (TrimSpace env content)
        ''```json'') ''```'') ''```'')"

definition parseResponse :: "Env \<Rightarrow> string \<Rightarrow> error + AIResponse" where
  "parseResponse env content0 =
     (let content = cleanContent env content0 in
      case unmarshal env content of
        Inl err \<Rightarrow> Inl (''JSON parsing error: '' @ err)
      | Inr response \<Rightarrow>
          if aiDiagnosis response = [] then Inl ''missing diagnosis in AI response''
          else if aiFixType response = [] then Inl ''missing fix_type in AI response''
          else if \<not> (case validFixTypes (aiFixType response) of Some b \<Rightarrow> b | None \<Rightarrow> False)
            then Inl (''invalid fix_type: '' @ aiFixType response)
          else if length (FixSteps response) = 0 then Inl ''missing fix_steps in AI response''
          else Inr response)"

text \<open>
  \<open>AnalyzeIncident\<close>: the chat completion request is the call to the diagnosis
  source.  The prompt it sends is not modelled; the answer is the next element of
  \<open>openai\<close>.
\<close>

definition AnalyzeIncident :: "Env \<Rightarrow> World \<Rightarrow> (error + AIResponse) \<times> World" where
  "AnalyzeIncident env w =
     (let reply = openai env (nai w);
          w1 = w\<lparr>nai := nai w + 1, trace := trace w @ [DiagnosisCall]\<rparr>
      in case reply of
        ApiError err \<Rightarrow> (Inl (''OpenAI API error: '' @ err), w1)
      | Choices choices \<Rightarrow>
          (case choices of
             [] \<Rightarrow> (Inl ''no response from OpenAI'', w1)
           | content # _ \<Rightarrow>
               (case parseResponse env content of
                  Inl err \<Rightarrow> (Inl (''failed to parse AI response: '' @ err), w1)
                | Inr aiResponse \<Rightarrow> (Inr aiResponse, w1))))"

definition GetQuickAnalysis :: "IncidentType \<Rightarrow> AIResponse" where
  "GetQuickAnalysis ty =
     (if ty = ServiceDown then
        \<lparr>aiDiagnosis = ''Service process has crashed or stopped responding'',
         aiFixType = ''restart'',
         FixSteps = [''Stop the service if it's still partially running'',
                     ''Restart the service process'',
                     ''Verify health check passes''],
         aiCode = [], Confidence = 9 / 10\<rparr>
      else if ty = ConfigError then
        \<lparr>aiDiagnosis = ''Configuration file contains invalid values'',
         aiFixType = ''config'',
         FixSteps = [''Restore database_url to 'localhost:5432'' @ [CHR 0x27],
                     ''Reset timeout to '30s'' @ [CHR 0x27],
                     ''Restart service to apply changes''],
         aiCode = [], Confidence = 85 / 100\<rparr>
      else if ty = DependencyFailure then
        \<lparr>aiDiagnosis = ''External dependency (database) is unreachable'',
         aiFixType = ''config'',
         FixSteps = [''Update database_url to valid host'',
                     ''Verify database is running'',
                     ''Restart service to reconnect''],
         aiCode = [], Confidence = 8 / 10\<rparr>
      else if ty = ResourceExhaustion then
        \<lparr>aiDiagnosis = ''System resources exhausted (port blocked or memory full)'',
         aiFixType = ''restart'',
         FixSteps = [''Stop the service'',
                     ''Clear any blocked resources'',
                     ''Restart service on clean port''],
         aiCode = [], Confidence = 75 / 100\<rparr>
      else
        \<lparr>aiDiagnosis = ''Unknown incident type'',
         aiFixType = ''restart'',
         FixSteps = [''Attempt service restart'', ''Monitor logs for errors''],
         aiCode = [], Confidence = 5 / 10\<rparr>)"

section \<open>The store (package memory)\<close>

text \<open>
  \<open>save\<close> writes the memory file; of the write only its error is modelled.
\<close>

definition save :: "Env \<Rightarrow> World \<Rightarrow> error option \<times> World" where
  "save env w = (save_result env (nsave w), w\<lparr>nsave := nsave w + 1\<rparr>)"

text \<open>
  The condition of \<open>StoreIncident\<close> under which the resolution of an incident is stored
  as the learned fix: \<open>incident.Status == models.StatusResolved && incident.Resolution != nil
  && incident.Resolution.Success\<close>.
\<close>

definition learnable :: "Incident \<Rightarrow> bool" where
  "learnable inc =
     (Status inc = StatusResolved
      \<and> (case Resolution inc of None \<Rightarrow> False | Some r \<Rightarrow> Success r))"

definition StoreIncident :: "Env \<Rightarrow> nat \<Rightarrow> World \<Rightarrow> error option \<times> World" where
  "StoreIncident env incident w =
     (let inc = heap w incident;
          w1 = w\<lparr>incidents := (incidents w)(ID inc \<mapsto> incident)\<rparr>;
          w2 = (if learnable inc
                then w1\<lparr>fixes := (fixes w1)(Type inc := Resolution inc),
                         trace := trace w1 @ [LearnFix (Type inc)]\<rparr>
                else w1)
      in save env w2)"

definition GetLearnedFix :: "IncidentType \<Rightarrow> World \<Rightarrow> Resolution option" where
  "GetLearnedFix incidentType w = fixes w incidentType"

definition UpdateIncidentStatus ::
  "Env \<Rightarrow> string \<Rightarrow> IncidentStatus \<Rightarrow> World \<Rightarrow> error option \<times> World" where
  "UpdateIncidentStatus env ident status w =
     (case incidents w ident of
        None \<Rightarrow> (Some (''incident not found: '' @ ident), w)
      | Some incident \<Rightarrow>
          (let w1 = assignStatus incident status w;
               w2 = (if status = StatusResolved
                     then modify incident (\<lambda>i. i\<lparr>ResolvedAt := Some (clock (machine w1))\<rparr>) w1
                     else w1)
           in save env w2))"

section \<open>The orchestrator (package main)\<close>

text \<open>
  \<open>verifyResolution\<close>: the loop \<open>for i := 0; i < 3; i++\<close> with the counter as argument.
\<close>

function verify_loop :: "Env \<Rightarrow> nat \<Rightarrow> World \<Rightarrow> bool \<times> World" where
  "verify_loop env i w =
     (if i < 3
      then (let w1 = (if i > 0 then w\<lparr>machine := sleep 1000 (machine w)\<rparr> else w);
                ok = probe env (nprobe w1);
                w2 = w1\<lparr>nprobe := nprobe w1 + 1, trace := trace w1 @ [Probe ok]\<rparr>
            in if ok then verify_loop env (i + 1) w2 else (False, w2))
      else (True, w))"
  by pat_completeness auto
termination
  by (relation "measure (\<lambda>(env, i, w). 3 - i)") auto

declare verify_loop.simps [simp del]

definition verifyResolution :: "Env \<Rightarrow> World \<Rightarrow> bool \<times> World" where
  "verifyResolution env w = verify_loop env 0 w"

text \<open>
  The lines of \<open>processIncident\<close> that obtain \<open>aiResponse\<close>: the diagnosis source when
  \<open>useAI\<close> is set, the rule-based plan when it is not or when the source returns an error.
\<close>

definition chooseAnalysis :: "Env \<Rightarrow> nat \<Rightarrow> World \<Rightarrow> AIResponse \<times> World" where
  "chooseAnalysis env incident w =
     (if useAI env
      then (case AnalyzeIncident env w of
              (Inl err, w1) \<Rightarrow> (GetQuickAnalysis (Type (heap w1 incident)), w1)
            | (Inr aiResponse, w1) \<Rightarrow> (aiResponse, w1))
      else (GetQuickAnalysis (Type (heap w incident)), w))"

text \<open>
  \<open>processIncident\<close> from the comment \<open>No cached fix or cached fix failed - use AI\<close> to
  its end.
\<close>

definition diagnosis_path :: "Env \<Rightarrow> nat \<Rightarrow> World \<Rightarrow> error option \<times> World" where
  "diagnosis_path env incident w =
     (let w1 = assignStatus incident StatusAnalyzing w;
          w2 = snd (UpdateIncidentStatus env (ID (heap w1 incident)) StatusAnalyzing w1)
      in case chooseAnalysis env incident w2 of
        (aiResponse, w3) \<Rightarrow>
          (let w4 = modify incident (\<lambda>i. i\<lparr>Diagnosis := aiDiagnosis aiResponse\<rparr>) w3;
               w5 = assignStatus incident StatusFixing w4;
               w6 = snd (UpdateIncidentStatus env (ID (heap w5 incident)) StatusFixing w5)
           in case ExecuteFix env aiResponse (machine w6) of
             ((resolution, Some err), m7) \<Rightarrow>
               (let w8 = assignStatus incident StatusFailed (w6\<lparr>machine := m7\<rparr>);
                    w9 = snd (StoreIncident env incident w8)
                in (Some (''failed to execute fix: '' @ err), w9))
           | ((resolution, None), m7) \<Rightarrow>
               (let w8 = modify incident (\<lambda>i. i\<lparr>Resolution := Some resolution\<rparr>)
                           (w6\<lparr>machine := m7\<rparr>);
                    w9 = w8\<lparr>machine := sleep 2000 (machine w8)\<rparr>
                in case verifyResolution env w9 of
                  (True, w10) \<Rightarrow>
                    (let w11 = assignStatus incident StatusResolved w10;
                         w12 = modify incident
                                 (\<lambda>i. i\<lparr>ResolvedAt := Some (clock (machine w11))\<rparr>) w11;
                         w13 = snd (StoreIncident env incident w12)
                     in (None, w13))
                | (False, w10) \<Rightarrow>
                    (let w11 = assignStatus incident StatusFailed w10;
                         w12 = snd (StoreIncident env incident w11)
                     in (None, w12)))))"

text \<open>
  The cached fix path of \<open>processIncident\<close>, from \<open>incident.UsedCachedFix = true\<close> to the
  result of the verification: whether the cached fix was applied and verified, and the
  state then.
\<close>

definition cached_attempt :: "Env \<Rightarrow> nat \<Rightarrow> Resolution \<Rightarrow> World \<Rightarrow> bool \<times> World" where
  "cached_attempt env incident cachedFix w =
     (let w1 = modify incident (\<lambda>i. i\<lparr>UsedCachedFix := True\<rparr>) w in
      case ApplyCachedFix env cachedFix (machine w1) of
        (Some err, m2) \<Rightarrow> (False, w1\<lparr>machine := m2\<rparr>)
      | (None, m2) \<Rightarrow> verifyResolution env (w1\<lparr>machine := m2\<rparr>))"

definition processIncident :: "Env \<Rightarrow> nat \<Rightarrow> World \<Rightarrow> error option \<times> World" where
  "processIncident env incident w =
     (let w0 = snd (StoreIncident env incident w) in
      case GetLearnedFix (Type (heap w0 incident)) w0 of
        Some cachedFix \<Rightarrow>
          (case cached_attempt env incident cachedFix w0 of
             (True, w3) \<Rightarrow>
               (let w4 = assignStatus incident StatusResolved w3;
                    w5 = modify incident
                           (\<lambda>i. i\<lparr>ResolvedAt := Some (clock (machine w4)),
                                  Resolution := Some cachedFix\<rparr>) w4;
                    w6 = snd (StoreIncident env incident w5)
                in (None, w6))
           | (False, w3) \<Rightarrow> diagnosis_path env incident w3)
      | None \<Rightarrow> diagnosis_path env incident w0)"

section \<open>Notions of the specification and example inputs\<close>

text \<open>
  The number of maximal runs of consecutive unhealthy samples in a sequence of health
  values: \<open>remdups_adj\<close> keeps one element of every maximal run of equal values, and the
  runs of unhealthy samples are the \<open>False\<close> among them.
\<close>

definition unhealthy_runs :: "bool list \<Rightarrow> nat" where
  "unhealthy_runs hs = length (filter Not (remdups_adj hs))"

text \<open>
  The classification rules of the specification that come after the rule on the
  dependency URL, in their order, over the decoded status document.
  \<open>config_string status key\<close> is the value of \<open>key\<close> in the \<open>config\<close> object when it is
  there and is a string; \<open>keyword_in_logs\<close> says that \<open>recent_logs\<close> is a list with an entry
  that is a string containing \<open>resource\<close>, \<open>port blocked\<close> or \<open>memory\<close>.
\<close>

definition config_string :: "jobj \<Rightarrow> string \<Rightarrow> string option" where
  "config_string status key =
     (case map_of status ''config'' of
        Some (JObj cfg) \<Rightarrow> (case map_of cfg key of Some (JStr str) \<Rightarrow> Some str | _ \<Rightarrow> None)
      | _ \<Rightarrow> None)"

definition keyword_in_logs :: "jobj \<Rightarrow> bool" where
  "keyword_in_logs status =
     (case map_of status ''recent_logs'' of
        Some (JArr logs) \<Rightarrow>
          list_ex (\<lambda>l. case l of
                         JStr str \<Rightarrow> sublist ''resource'' str \<or> sublist ''port blocked'' str
                                     \<or> sublist ''memory'' str
                       | _ \<Rightarrow> False) logs
      | _ \<Rightarrow> False)"

definition later_rules :: "jobj \<Rightarrow> IncidentType" where
  "later_rules status =
     (if config_string status ''database_url'' = Some ''unreachable-host:9999''
      then DependencyFailure
      else if config_string status ''timeout'' = Some ''not-a-number'' then ConfigError
      else if map_of status ''running'' = Some (JBool False) then ServiceDown
      else if keyword_in_logs status then ResourceExhaustion
      else ServiceDown)"

text \<open>A tick at time \<open>t\<close> whose sample has health \<open>h\<close> and whose status requests fail.\<close>

definition example_tick :: "bool \<Rightarrow> nat \<Rightarrow> Tick" where
  "example_tick h t =
     \<lparr>sample = \<lparr>Healthy = h, Timestamp = t,
                 Message = (if h then ''Service operational'' else ''Service unhealthy''),
                 StatusCode = (if h then 200 else 503)\<rparr>,
      status_reply = GetFailed, logs_reply = GetFailed, uuid = ''incident-'' @ digits t,
      now = t\<rparr>"

definition unhealthy_sample :: HealthStatus where
  "unhealthy_sample =
     \<lparr>Healthy = False, Timestamp = 0, Message = ''Service unhealthy'', StatusCode = 503\<rparr>"

text \<open>
  Status documents: one without \<open>database_url\<close>, one whose \<open>database_url\<close> is not a URL,
  and one with the corrupted \<open>database_url\<close> together with a stopped service and a
  resource keyword in the logs.
\<close>

definition status_without_url :: jobj where
  "status_without_url =
     [(''running'', JBool True), (''healthy'', JBool False),
      (''config'', JObj [(''timeout'', JStr ''30s''), (''max_retries'', JStr ''3'')]),
      (''recent_logs'', JArr [])]"

definition status_malformed_url :: jobj where
  "status_malformed_url =
     [(''running'', JBool True), (''healthy'', JBool False),
      (''config'', JObj [(''database_url'', JStr ''http//:not a url''),
                         (''timeout'', JStr ''30s''), (''max_retries'', JStr ''3'')]),
      (''recent_logs'', JArr [])]"

definition status_corrupted :: jobj where
  "status_corrupted =
     [(''running'', JBool False), (''healthy'', JBool False),
      (''config'', JObj [(''database_url'', JStr ''invalid::url::format''),
                         (''timeout'', JStr ''not-a-number'')]),
      (''recent_logs'', JArr [JStr ''Resource exhaustion - port blocked or memory full''])]"

section \<open>Notions used to state and prove the properties of the orchestrator\<close>

text \<open>
  The verification loop started when \<open>n\<close> probes have been consumed: whether it passes,
  and how many probes it runs.
\<close>

definition verified :: "Env \<Rightarrow> nat \<Rightarrow> bool" where
  "verified env n = (probe env n \<and> probe env (n + 1) \<and> probe env (n + 2))"

definition probes_run :: "Env \<Rightarrow> nat \<Rightarrow> nat" where
  "probes_run env n = (if \<not> probe env n then 1 else if \<not> probe env (n + 1) then 2 else 3)"

text \<open>
  The plan \<open>chooseAnalysis\<close> returns, as a function of what it reads: the number of
  requests made to the diagnosis source so far and the type of the incident.
\<close>

definition analysis_plan :: "Env \<Rightarrow> nat \<Rightarrow> IncidentType \<Rightarrow> AIResponse" where
  "analysis_plan env k ty =
     (if useAI env
      then (case openai env k of
              ApiError err \<Rightarrow> GetQuickAnalysis ty
            | Choices choices \<Rightarrow>
                (case choices of
                   [] \<Rightarrow> GetQuickAnalysis ty
                 | content # _ \<Rightarrow>
                     (case parseResponse env content of
                        Inl err \<Rightarrow> GetQuickAnalysis ty
                      | Inr aiResponse \<Rightarrow> aiResponse)))
      else GetQuickAnalysis ty)"

text \<open>
  The call of \<open>ExecuteFix\<close> on the diagnosis path entered in state \<open>w\<close>, its error and
  the resolution it returns.
\<close>

definition dp_exec :: "Env \<Rightarrow> nat \<Rightarrow> World \<Rightarrow> (Resolution \<times> error option) \<times> Machine" where
  "dp_exec env p w = ExecuteFix env (analysis_plan env (nai w) (Type (heap w p))) (machine w)"

definition dp_err :: "Env \<Rightarrow> nat \<Rightarrow> World \<Rightarrow> error option" where
  "dp_err env p w = snd (fst (dp_exec env p w))"

definition dp_res :: "Env \<Rightarrow> nat \<Rightarrow> World \<Rightarrow> Resolution" where
  "dp_res env p w = fst (fst (dp_exec env p w))"

text \<open>
  The life cycle \<open>Detected \<rightarrow> Analyzing \<rightarrow> Fixing \<rightarrow> {Resolved | Failed}\<close>: the stage of a
  status, the terminal statuses, and the sequences of statuses that only move forward
  (a status may be assigned again, stages may be skipped, nothing follows a terminal
  status).  \<open>status_assignments p tr\<close> is the sequence of statuses assigned to the
  incident at address \<open>p\<close> in the trace \<open>tr\<close>.
\<close>

fun rank :: "IncidentStatus \<Rightarrow> nat" where
  "rank StatusDetected = 0"
| "rank StatusAnalyzing = 1"
| "rank StatusFixing = 2"
| "rank StatusResolved = 3"
| "rank StatusFailed = 3"

definition terminal :: "IncidentStatus \<Rightarrow> bool" where
  "terminal s = (s = StatusResolved \<or> s = StatusFailed)"

fun lifecycle_ok :: "IncidentStatus list \<Rightarrow> bool" where
  "lifecycle_ok [] = True"
| "lifecycle_ok [s] = True"
| "lifecycle_ok (s # t # rest) = (\<not> terminal s \<and> rank s \<le> rank t \<and> lifecycle_ok (t # rest))"

fun status_assignments :: "nat \<Rightarrow> Event list \<Rightarrow> IncidentStatus list" where
  "status_assignments p [] = []"
| "status_assignments p (SetStatus q s # tr) =
     (if q = p then s # status_assignments p tr else status_assignments p tr)"
| "status_assignments p (e # tr) = status_assignments p tr"

text \<open>The shape the diagnosis source contract asks of a plan.\<close>

definition valid_plan :: "AIResponse \<Rightarrow> bool" where
  "valid_plan r =
     (aiDiagnosis r \<noteq> [] \<and> aiFixType r \<in> {''restart'', ''config'', ''code''} \<and> FixSteps r \<noteq> [])"

text \<open>
  What a run that starts in \<open>w\<close>, ends in \<open>w'\<close> and appends \<open>tr\<close> to the trace did to the
  learned fixes: if it wrote the entry of the incident's type, the incident is resolved,
  the entry is its successful resolution, and the write comes right after three passing
  probes and the assignment of \<open>StatusResolved\<close>; otherwise the learned fixes are
  unchanged.
\<close>

definition cache_write_ok :: "nat \<Rightarrow> World \<Rightarrow> World \<Rightarrow> Event list \<Rightarrow> bool" where
  "cache_write_ok p w w' tr =
     (if LearnFix (Type (heap w p)) \<in> set tr
      then Status (heap w' p) = StatusResolved
         \<and> (\<exists>r. Resolution (heap w' p) = Some r \<and> Success r
               \<and> fixes w' = (fixes w)(Type (heap w p) \<mapsto> r))
         \<and> (\<exists>tr0. tr = tr0 @ [Probe True, Probe True, Probe True,
                                SetStatus p StatusResolved, LearnFix (Type (heap w p))])
      else fixes w' = fixes w)"

subsection \<open>An example process\<close>

text \<open>
  A diagnosis source that always answers with a plan of fix kind \<open>reboot\<close>, a workload
  whose first \<open>n\<close> verification probes are healthy and all later ones unhealthy, and a
  state in which every address holds a detected incident of type \<open>ServiceDown\<close> and
  nothing has been learned.
\<close>

definition reboot_plan :: AIResponse where
  "reboot_plan =
     \<lparr>aiDiagnosis = ''The service is stuck'', aiFixType = ''reboot'',
      FixSteps = [''Reboot the host''], aiCode = [], Confidence = 9 / 10\<rparr>"

text \<open>
  On text made of ASCII characters, \<open>strings.ToLower\<close> maps the letters \<open>A\<close> to \<open>Z\<close> to
  lower case and \<open>strings.TrimSpace\<close> removes leading and trailing space, tab, newline,
  vertical tab, form feed and carriage return.  The example process uses these two
  functions; all its strings are ASCII.
\<close>

definition ascii_lower :: "string \<Rightarrow> string" where
  "ascii_lower s =
     map (\<lambda>c. case map_of (zip ''ABCDEFGHIJKLMNOPQRSTUVWXYZ''
                                  ''abcdefghijklmnopqrstuvwxyz'') c of
                 Some l \<Rightarrow> l
               | None \<Rightarrow> c) s"

definition ascii_space :: "char \<Rightarrow> bool" where
  "ascii_space c = (c \<in> set [CHR '' '', CHR 0x09, CHR 0x0A, CHR 0x0B, CHR 0x0C, CHR 0x0D])"

definition ascii_trim :: "string \<Rightarrow> string" where
  "ascii_trim s = rev (dropWhile ascii_space (rev (dropWhile ascii_space s)))"

definition example_env :: "nat \<Rightarrow> Env" where
  "example_env n =
     \<lparr>useAI = True, probe = (\<lambda>k. k < n),
      openai = (\<lambda>k. Choices [''(a plan of fix kind reboot)'']),
      unmarshal = (\<lambda>s. Inr reboot_plan),
      close_result = (\<lambda>k. None), save_result = (\<lambda>k. None),
      ToLower = ascii_lower, TrimSpace = ascii_trim\<rparr>"

definition example_incident :: "string \<Rightarrow> Incident" where
  "example_incident ident =
     \<lparr>ID = ident, Type = ServiceDown, Status = StatusDetected, DetectedAt = 0,
      ResolvedAt = None,
      Symptoms = [''Health check returned status code: 503'', ''Service unhealthy'',
                  ''Service health check failing''],
      Logs = [], Diagnosis = [], Resolution = None, UsedCachedFix = False\<rparr>"

definition example_world :: World where
  "example_world =
     \<lparr>heap = (\<lambda>a. example_incident (''incident-'' @ digits a)),
      incidents = Map.empty, fixes = Map.empty, nsave = 0,
      machine = \<lparr>service = \<lparr>isHealthy = False, isRunning = True,
                             config = [''database_url'' \<mapsto> ''localhost:5432'',
                                       ''timeout'' \<mapsto> ''30s'', ''max_retries'' \<mapsto> ''3''],
                             server = True\<rparr>,
                 clock = 0, nclose = 0\<rparr>,
      nprobe = 0, nai = 0, trace = []\<rparr>"

text \<open>
  The example state after the incident at address 0 has been processed, and after the
  incident at address 1 has been processed next.
\<close>

definition after_first :: "nat \<Rightarrow> World" where
  "after_first n = snd (processIncident (example_env n) 0 example_world)"

definition after_second :: "nat \<Rightarrow> World" where
  "after_second n = snd (processIncident (example_env n) (Suc 0) (after_first n))"

section \<open>Substring matching\<close>

lemma sublist_iff_window:
  "sublist xs ys \<longleftrightarrow> (\<exists>k. k + length xs \<le> length ys \<and> take (length xs) (drop k ys) = xs)"
proof
  assume "sublist xs ys"
  then obtain ps ss where ys: "ys = ps @ xs @ ss"
    by (auto simp: sublist_def)
  have "length ps + length xs \<le> length ys \<and> take (length xs) (drop (length ps) ys) = xs"
    by (simp add: ys)
  then show "\<exists>k. k + length xs \<le> length ys \<and> take (length xs) (drop k ys) = xs"
    by blast
next
  assume "\<exists>k. k + length xs \<le> length ys \<and> take (length xs) (drop k ys) = xs"
  then obtain k where k: "k + length xs \<le> length ys" "take (length xs) (drop k ys) = xs"
    by blast
  have "ys = take k ys @ take (length xs) (drop k ys) @ drop (length xs) (drop k ys)"
    by (metis append_take_drop_id)
  with k(2) have "ys = take k ys @ xs @ drop (length xs) (drop k ys)"
    by simp
  then show "sublist xs ys"
    unfolding sublist_def by blast
qed

lemma hasSubstring_loop_window:
  "0 \<le> i \<Longrightarrow>
   hasSubstring_loop s substr i =
     Some (\<exists>k. nat i \<le> k \<and> k + length substr \<le> length s
               \<and> take (length substr) (drop k s) = substr)"
proof (induction s substr i rule: hasSubstring_loop.induct)
  case (1 s substr i)
  show ?case
  proof (cases "i \<le> int (length s) - int (length substr)")
    case False
    then have "\<not> (\<exists>k. nat i \<le> k \<and> k + length substr \<le> length s)"
      using "1.prems" by auto
    with False show ?thesis
      by (subst hasSubstring_loop.simps) auto
  next
    case True
    have sl: "slice s i (i + int (length substr))
                = Some (take (length substr) (drop (nat i) s))"
      using True "1.prems" by (simp add: slice_def)
    show ?thesis
    proof (cases "take (length substr) (drop (nat i) s) = substr")
      case hit: True
      have "nat i + length substr \<le> length s"
        using True "1.prems" by linarith
      with hit have "\<exists>k. nat i \<le> k \<and> k + length substr \<le> length s
                     \<and> take (length substr) (drop k s) = substr"
        by blast
      with True sl hit show ?thesis
        by (subst hasSubstring_loop.simps) simp
    next
      case miss: False
      have ih: "hasSubstring_loop s substr (i + 1) =
                  Some (\<exists>k. nat (i + 1) \<le> k \<and> k + length substr \<le> length s
                            \<and> take (length substr) (drop k s) = substr)"
        using "1.IH" [OF True sl miss] "1.prems" by simp
      have "(\<exists>k. nat (i + 1) \<le> k \<and> k + length substr \<le> length s
                  \<and> take (length substr) (drop k s) = substr)
            \<longleftrightarrow> (\<exists>k. nat i \<le> k \<and> k + length substr \<le> length s
                  \<and> take (length substr) (drop k s) = substr)"
      proof
        assume "\<exists>k. nat (i + 1) \<le> k \<and> k + length substr \<le> length s
                  \<and> take (length substr) (drop k s) = substr"
        then obtain k where "nat (i + 1) \<le> k" "k + length substr \<le> length s"
            "take (length substr) (drop k s) = substr"
          by blast
        moreover from this(1) have "nat i \<le> k" by linarith
        ultimately show "\<exists>k. nat i \<le> k \<and> k + length substr \<le> length s
                  \<and> take (length substr) (drop k s) = substr"
          by blast
      next
        assume "\<exists>k. nat i \<le> k \<and> k + length substr \<le> length s
                  \<and> take (length substr) (drop k s) = substr"
        then obtain k where k: "nat i \<le> k" "k + length substr \<le> length s"
            "take (length substr) (drop k s) = substr"
          by blast
        with miss have "k \<noteq> nat i" by auto
        with k(1) "1.prems" have "nat (i + 1) \<le> k" by linarith
        with k show "\<exists>k. nat (i + 1) \<le> k \<and> k + length substr \<le> length s
                  \<and> take (length substr) (drop k s) = substr"
          by blast
      qed
      with True sl miss ih show ?thesis
        by (subst hasSubstring_loop.simps) simp
    qed
  qed
qed

lemma hasSubstring_sublist: "hasSubstring s substr = Some (sublist substr s)"
  unfolding hasSubstring_def
  by (simp add: hasSubstring_loop_window sublist_iff_window)

lemma contains_sublist: "contains s substr = Some (sublist substr s)"
proof (cases "length s \<ge> length substr")
  case False
  then have "\<not> sublist substr s"
    by (auto simp: sublist_def)
  with False show ?thesis
    by (simp add: contains_def)
next
  case ge: True
  show ?thesis
  proof (cases "s = substr")
    case True
    then show ?thesis by (simp add: contains_def)
  next
    case ne: False
    show ?thesis
    proof (cases "length s > length substr")
      case False
      with ge have eq: "length s = length substr" by linarith
      have "\<not> sublist substr s"
      proof
        assume "sublist substr s"
        then obtain ps ss where "s = ps @ substr @ ss" by (auto simp: sublist_def)
        with eq ne show False by auto
      qed
      with ge ne False show ?thesis
        by (simp add: contains_def)
    next
      case gt: True
      have p: "slice s 0 (int (length substr)) = Some (take (length substr) s)"
      using gt by (simp add: slice_def)
    have q: "slice s (int (length s) - int (length substr)) (int (length s))
               = Some (drop (length s - length substr) s)"
      using gt by (simp add: slice_def nat_diff_distrib)
    have pre: "take (length substr) s = substr \<Longrightarrow> sublist substr s"
      by (metis append_take_drop_id sublist_append_rightI)
    have suf: "drop (length s - length substr) s = substr \<Longrightarrow> sublist substr s"
      by (metis append_take_drop_id sublist_append_leftI)
    show ?thesis
      using ge ne gt p q pre suf
      by (auto simp: contains_def hasSubstring_sublist)
    qed
  qed
qed

text \<open>
  C10. For all strings \<open>s\<close> and \<open>substr\<close>, \<open>contains(s, substr)\<close> returns (it never
  panics on a slice), and it returns true exactly when \<open>substr\<close> occurs as a contiguous
  substring of \<open>s\<close>; the naive scan \<open>hasSubstring\<close> computes the same.
\<close>

theorem contains_is_substring:
  "contains s substr = Some (sublist substr s)
   \<and> hasSubstring s substr = Some (sublist substr s)"
  by (simp add: contains_sublist hasSubstring_sublist)


section \<open>Classification\<close>

lemma scan_logs_keyword:
  "scan_logs logs =
     Some (\<exists>str. JStr str \<in> set logs
             \<and> (sublist ''resource'' str \<or> sublist ''port blocked'' str \<or> sublist ''memory'' str))"
proof (induction logs)
  case Nil
  show ?case by simp
next
  case (Cons l logs)
  show ?case
  proof (cases l)
    case (JStr str)
    then show ?thesis
      using Cons.IH
      by (auto simp: contains_sublist or_else_def split: bool.splits)
  qed (use Cons.IH in auto)
qed

lemma rule_logs_total: "\<exists>r. rule_logs status = Some r"
  unfolding rule_logs_def
  by (auto simp: scan_logs_keyword split: option.splits json.splits bool.splits)

lemma analyzeSymptoms_total: "\<exists>ty symptoms. analyzeSymptoms health reply = Some (ty, symptoms)"
proof -
  obtain r where "rule_logs (fetchServiceStatus reply) = Some r"
    using rule_logs_total by blast
  then show ?thesis
    unfolding analyzeSymptoms_def Let_def
    by (auto split: option.splits prod.splits)
qed

lemma scan_logs_list_ex:
  "scan_logs logs =
     Some (list_ex (\<lambda>l. case l of
                         JStr str \<Rightarrow> sublist ''resource'' str \<or> sublist ''port blocked'' str
                                     \<or> sublist ''memory'' str
                       | _ \<Rightarrow> False) logs)"
proof (induction logs)
  case Nil
  show ?case by simp
next
  case (Cons l logs)
  show ?case
  proof (cases l)
    case (JStr str)
    then show ?thesis
      using Cons.IH
      by (auto simp: contains_sublist or_else_def split: bool.splits)
  qed (use Cons.IH in auto)
qed

lemma rule_logs_keyword:
  "rule_logs status
     = Some (if keyword_in_logs status
             then Some (ResourceExhaustion, ''Resource exhaustion detected in logs'')
             else None)"
  by (auto simp: rule_logs_def keyword_in_logs_def scan_logs_list_ex
      split: option.splits json.splits bool.splits)

lemma rule_running_iff:
  "rule_running status
     = (if map_of status ''running'' = Some (JBool False)
        then Some (ServiceDown, ''Service process not running'') else None)"
  by (auto simp: rule_running_def split: option.splits json.splits)

lemma rule_config_strings:
  "map_option fst (rule_config status)
     = (if config_string status ''database_url'' = Some []
           \<or> config_string status ''database_url'' = Some ''invalid::url::format''
        then Some ConfigError
        else if config_string status ''database_url'' = Some ''unreachable-host:9999''
        then Some DependencyFailure
        else if config_string status ''timeout'' = Some ''not-a-number'' then Some ConfigError
        else None)"
  by (auto simp: rule_config_def rule_database_url_def rule_timeout_def config_string_def
      split: option.splits json.splits)

lemma classify_exact:
  "map_option fst (analyzeSymptoms health reply)
     = Some (if config_string (fetchServiceStatus reply) ''database_url'' = Some []
                \<or> config_string (fetchServiceStatus reply) ''database_url''
                    = Some ''invalid::url::format''
             then ConfigError
             else later_rules (fetchServiceStatus reply))"
proof -
  let ?st = "fetchServiceStatus reply"
  show ?thesis
  proof (cases "rule_config ?st")
    case None
    then have n: "map_option fst (rule_config ?st) = None"
      by simp
    show ?thesis
      using None n [unfolded rule_config_strings]
      by (auto simp: analyzeSymptoms_def Let_def rule_running_iff rule_logs_keyword
          later_rules_def split: if_splits)
  next
    case (Some r)
    obtain ty sym where r: "r = (ty, sym)"
      by (cases r)
    have s: "map_option fst (rule_config ?st) = Some ty"
      using Some r by simp
    show ?thesis
      using Some r s [unfolded rule_config_strings]
      by (auto simp: analyzeSymptoms_def Let_def later_rules_def split: if_splits)
  qed
qed

text \<open>
  C3, as stated, fails: a status document whose configuration has no \<open>database_url\<close>
  (and nothing else wrong) is classified \<open>ServiceDown\<close>, and so is one whose
  \<open>database_url\<close> is a string that is not a URL.
\<close>

theorem absent_url_not_config_error:
  "map_option fst (analyzeSymptoms unhealthy_sample (Decoded status_without_url))
     = Some ServiceDown
   \<and> map_option fst (analyzeSymptoms unhealthy_sample (Decoded status_malformed_url))
     = Some ServiceDown
   \<and> ServiceDown \<noteq> ConfigError"
  by (simp add: analyzeSymptoms_def fetchServiceStatus_def rule_config_def rule_database_url_def
      rule_timeout_def rule_running_def rule_logs_def ServiceDown_def ConfigError_def
      status_without_url_def status_malformed_url_def)

text \<open>
  C3, amended.  For every health sample and every reply to the status request: when the
  \<open>config\<close> object of the status document holds \<open>database_url\<close> as the empty string or as
  the string \<open>invalid::url::format\<close>, the class is \<open>ConfigError\<close>, whatever the rest of the
  document; in every other case (the field absent, not a string, or any other string) the
  class is the one the later rules give, in their order.  The four classes are different
  strings.
\<close>

theorem classification_by_database_url:
  "map_option fst (analyzeSymptoms health reply)
     = Some (if config_string (fetchServiceStatus reply) ''database_url'' = Some []
                \<or> config_string (fetchServiceStatus reply) ''database_url''
                    = Some ''invalid::url::format''
             then ConfigError
             else later_rules (fetchServiceStatus reply))
   \<and> distinct [ServiceDown, ConfigError, ResourceExhaustion, DependencyFailure]"
  using classify_exact [of health reply]
  by (simp add: ServiceDown_def ConfigError_def ResourceExhaustion_def DependencyFailure_def)

theorem classification_by_database_url_witness:
  "map_option fst (analyzeSymptoms unhealthy_sample (Decoded status_corrupted)) = Some ConfigError
   \<and> map_option fst (analyzeSymptoms unhealthy_sample (Decoded status_without_url))
       = Some ServiceDown"
  using classification_by_database_url [of unhealthy_sample "Decoded status_corrupted"]
    classification_by_database_url [of unhealthy_sample "Decoded status_without_url"]
  by (simp add: fetchServiceStatus_def config_string_def later_rules_def keyword_in_logs_def
      status_corrupted_def status_without_url_def)

section \<open>The monitor loop\<close>

lemma createIncident_fields:
  "\<exists>inc. createIncident t health = Some inc \<and> ID inc = uuid t \<and> Status inc = StatusDetected
         \<and> DetectedAt inc = now t \<and> \<not> UsedCachedFix inc"
proof -
  obtain ty symptoms where "analyzeSymptoms health (status_reply t) = Some (ty, symptoms)"
    using analyzeSymptoms_total by blast
  then show ?thesis
    by (simp add: createIncident_def)
qed

lemma monitorStep_emit:
  "prev \<and> \<not> Healthy (sample t) \<Longrightarrow>
   \<exists>inc. monitorStep (prev, sent) t = Some (False, sent @ [inc]) \<and> ID inc = uuid t
         \<and> Status inc = StatusDetected \<and> DetectedAt inc = now t \<and> \<not> UsedCachedFix inc"
proof -
  assume a: "prev \<and> \<not> Healthy (sample t)"
  obtain inc where "createIncident t (sample t) = Some inc" "ID inc = uuid t"
      "Status inc = StatusDetected" "DetectedAt inc = now t" "\<not> UsedCachedFix inc"
    using createIncident_fields by blast
  with a show ?thesis
    by (simp add: monitorStep_def)
qed

lemma monitorStep_quiet:
  "\<not> (prev \<and> \<not> Healthy (sample t)) \<Longrightarrow>
   monitorStep (prev, sent) t = Some (Healthy (sample t), sent)"
  by (auto simp: monitorStep_def)

lemma monitor_iterate_count:
  "\<exists>evs. monitor_iterate (prev, sent) ticks
            = Some (last (prev # map (\<lambda>t. Healthy (sample t)) ticks), sent @ evs)
         \<and> length evs + (if prev then 0 else 1)
            = unhealthy_runs (prev # map (\<lambda>t. Healthy (sample t)) ticks)"
proof (induction ticks arbitrary: prev sent)
  case Nil
  show ?case by (simp add: unhealthy_runs_def)
next
  case (Cons t ticks)
  show ?case
  proof (cases "prev \<and> \<not> Healthy (sample t)")
    case True
    then obtain inc where st: "monitorStep (prev, sent) t = Some (False, sent @ [inc])"
      using monitorStep_emit by blast
    obtain evs where evs: "monitor_iterate (False, sent @ [inc]) ticks
            = Some (last (False # map (\<lambda>t. Healthy (sample t)) ticks), (sent @ [inc]) @ evs)"
        "length evs + 1 = unhealthy_runs (False # map (\<lambda>t. Healthy (sample t)) ticks)"
      using Cons.IH [of False "sent @ [inc]"] by auto
    have "monitor_iterate (prev, sent) (t # ticks)
            = Some (last (prev # map (\<lambda>t. Healthy (sample t)) (t # ticks)), sent @ (inc # evs))"
      using st evs(1) True by simp
    moreover have "length (inc # evs) + (if prev then 0 else 1)
            = unhealthy_runs (prev # map (\<lambda>t. Healthy (sample t)) (t # ticks))"
      using evs(2) True by (simp add: unhealthy_runs_def)
    ultimately show ?thesis by blast
  next
    case False
    then have st: "monitorStep (prev, sent) t = Some (Healthy (sample t), sent)"
      by (rule monitorStep_quiet)
    obtain evs where evs: "monitor_iterate (Healthy (sample t), sent) ticks
            = Some (last (Healthy (sample t) # map (\<lambda>t. Healthy (sample t)) ticks), sent @ evs)"
        "length evs + (if Healthy (sample t) then 0 else 1)
           = unhealthy_runs (Healthy (sample t) # map (\<lambda>t. Healthy (sample t)) ticks)"
      using Cons.IH [of "Healthy (sample t)" sent] by auto
    have "monitor_iterate (prev, sent) (t # ticks)
            = Some (last (prev # map (\<lambda>t. Healthy (sample t)) (t # ticks)), sent @ evs)"
      using st evs(1) by simp
    moreover have "length evs + (if prev then 0 else 1)
            = unhealthy_runs (prev # map (\<lambda>t. Healthy (sample t)) (t # ticks))"
      using evs(2) False by (auto simp: unhealthy_runs_def)
    ultimately show ?thesis by blast
  qed
qed

lemma unhealthy_runs_True: "unhealthy_runs (True # hs) = unhealthy_runs hs"
  by (cases hs) (auto simp: unhealthy_runs_def)

lemma monitorLoop_count:
  "\<exists>evs. monitorLoop ticks = Some evs
         \<and> length evs = unhealthy_runs (map (\<lambda>t. Healthy (sample t)) ticks)"
  using monitor_iterate_count [of True "[]" ticks]
  by (auto simp: monitorLoop_def unhealthy_runs_True)

lemma example_tick_healthy: "Healthy (sample (example_tick h t)) = h"
  by (simp add: example_tick_def)

lemma example_tick_now: "now (example_tick h t) = t"
  by (simp add: example_tick_def)

lemma monitor_three:
  assumes "\<not> Healthy (sample t0)" "Healthy (sample t1)" "\<not> Healthy (sample t2)"
  shows "\<exists>e0 e2. monitorLoop [t0, t1, t2] = Some [e0, e2]
            \<and> DetectedAt e0 = now t0 \<and> DetectedAt e2 = now t2"
proof -
  obtain e0 where e0: "monitorStep (True, []) t0 = Some (False, [] @ [e0])" "DetectedAt e0 = now t0"
    using monitorStep_emit [of True t0 "[]"] assms(1) by blast
  have s1: "monitorStep (False, [e0]) t1 = Some (True, [e0])"
    using monitorStep_quiet [of False t1 "[e0]"] assms(2) by simp
  obtain e2 where e2: "monitorStep (True, [e0]) t2 = Some (False, [e0] @ [e2])" "DetectedAt e2 = now t2"
    using monitorStep_emit [of True t2 "[e0]"] assms(3) by blast
  have "monitorLoop [t0, t1, t2] = Some [e0, e2]"
    using e0(1) s1 e2(1) by (simp add: monitorLoop_def)
  with e0(2) e2(2) show ?thesis by blast
qed

text \<open>
  C1. For every sequence of ticks the monitor loop handles, it sends exactly one incident
  per maximal run of consecutive unhealthy samples.  In one iteration, with any value
  \<open>prev\<close> of \<open>previousHealthy\<close>: an incident is sent exactly when the previous sample was healthy
  and the new one is unhealthy; in every other case, in particular on a recovery
  (previous unhealthy, new healthy), the channel is left as it was.
\<close>

theorem monitor_emits_on_rising_edge_only:
  "(\<exists>evs. monitorLoop ticks = Some evs
          \<and> length evs = unhealthy_runs (map (\<lambda>t. Healthy (sample t)) ticks))
   \<and> (if prev \<and> \<not> Healthy (sample t)
      then (\<exists>inc. monitorStep (prev, sent) t = Some (False, sent @ [inc])
                 \<and> Status inc = StatusDetected \<and> DetectedAt inc = now t)
      else monitorStep (prev, sent) t = Some (Healthy (sample t), sent))"
proof -
  have "prev \<and> \<not> Healthy (sample t) \<Longrightarrow>
        \<exists>inc. monitorStep (prev, sent) t = Some (False, sent @ [inc])
                 \<and> Status inc = StatusDetected \<and> DetectedAt inc = now t"
    using monitorStep_emit [of prev t sent] by blast
  then show ?thesis
    using monitorLoop_count [of ticks] monitorStep_quiet [of prev t sent]
    by (simp del: not_ex)
qed

theorem monitor_emits_on_rising_edge_only_witness:
  "(\<exists>evs. monitorLoop [example_tick True 0, example_tick False 3, example_tick False 6,
                        example_tick True 9, example_tick False 12] = Some evs
          \<and> length evs = 2)
   \<and> monitorStep (False, []) (example_tick True 9) = Some (True, [])"
proof -
  have runs: "unhealthy_runs (map (\<lambda>t. Healthy (sample t))
                [example_tick True 0, example_tick False 3, example_tick False 6,
                 example_tick True 9, example_tick False 12]) = 2"
    by (simp add: example_tick_healthy unhealthy_runs_def)
  show ?thesis
    using monitor_emits_on_rising_edge_only
            [of "[example_tick True 0, example_tick False 3, example_tick False 6,
                  example_tick True 9, example_tick False 12]" False "example_tick True 9" "[]"]
    unfolding runs by (simp add: example_tick_healthy)
qed

text \<open>
  C2, as stated, fails: on the samples unhealthy, healthy, unhealthy at times 0, 3 and 6
  the monitor loop sends two incidents, detected at 0 and at 6 (\<open>previousHealthy\<close> starts
  as true, so the first sample is a transition).
\<close>

theorem unhealthy_first_sample_emits:
  "map_option (map DetectedAt)
     (monitorLoop [example_tick False 0, example_tick True 3, example_tick False 6])
   = Some [0, 6]"
  using monitor_three [of "example_tick False 0" "example_tick True 3" "example_tick False 6"]
  by (auto simp: example_tick_healthy example_tick_now)

text \<open>
  C2, amended.  When the monitor observes the samples unhealthy, healthy, unhealthy,
  exactly two incidents are sent, the first detected at the time of the first sample and
  the second at the time of the third.
\<close>

theorem two_events_for_unhealthy_healthy_unhealthy:
  assumes "\<not> Healthy (sample t0)" "Healthy (sample t1)" "\<not> Healthy (sample t2)"
  shows "\<exists>e0 e2. monitorLoop [t0, t1, t2] = Some [e0, e2]
            \<and> DetectedAt e0 = now t0 \<and> DetectedAt e2 = now t2"
  using assms by (rule monitor_three)

theorem two_events_for_unhealthy_healthy_unhealthy_witness:
  "\<exists>e0 e2. monitorLoop [example_tick False 0, example_tick True 3, example_tick False 6]
             = Some [e0, e2]
          \<and> DetectedAt e0 = 0 \<and> DetectedAt e2 = 6"
  using two_events_for_unhealthy_healthy_unhealthy
          [of "example_tick False 0" "example_tick True 3" "example_tick False 6"]
  by (simp add: example_tick_healthy example_tick_now)

section \<open>The verification loop\<close>

lemma verifyResolution_closed:
  "verifyResolution env w =
     (let n = nprobe w; p0 = probe env n; p1 = probe env (n + 1); p2 = probe env (n + 2);
          k = (if \<not> p0 then 1 else if \<not> p1 then 2 else 3)
      in (p0 \<and> p1 \<and> p2,
          w\<lparr>machine := sleep (1000 * (k - 1)) (machine w), nprobe := n + k,
            trace := trace w @ map Probe (take k [p0, p1, p2])\<rparr>))"
  by (simp add: verifyResolution_def verify_loop.simps Let_def sleep_def)

text \<open>
  C5. The verification loop runs the next probes one after the other, at most three of
  them: it stops with failure at the first failing probe, having run no probe after it,
  and it returns success exactly when the three probes all pass.  \<open>k\<close> is the number of
  probes run.
\<close>

theorem verification_loop_short_circuits:
  "let n = nprobe w; p0 = probe env n; p1 = probe env (n + 1); p2 = probe env (n + 2);
       k = (if \<not> p0 then 1 else if \<not> p1 then 2 else 3);
       r = verifyResolution env w
   in fst r = (p0 \<and> p1 \<and> p2)
      \<and> nprobe (snd r) = n + k \<and> k \<le> 3
      \<and> trace (snd r) = trace w @ map Probe (take k [p0, p1, p2])"
  by (simp add: verifyResolution_closed Let_def)



section \<open>State selectors after each operation\<close>

lemma assignStatus_sel [simp]:
  "heap (assignStatus p s w) = (heap w)(p := (heap w p)\<lparr>Status := s\<rparr>)"
  "incidents (assignStatus p s w) = incidents w"
  "fixes (assignStatus p s w) = fixes w"
  "nsave (assignStatus p s w) = nsave w"
  "machine (assignStatus p s w) = machine w"
  "nprobe (assignStatus p s w) = nprobe w"
  "nai (assignStatus p s w) = nai w"
  "trace (assignStatus p s w) = trace w @ [SetStatus p s]"
  by (simp_all add: assignStatus_def modify_def)

lemma modify_sel [simp]:
  "heap (modify p f w) = (heap w)(p := f (heap w p))"
  "incidents (modify p f w) = incidents w"
  "fixes (modify p f w) = fixes w"
  "nsave (modify p f w) = nsave w"
  "machine (modify p f w) = machine w"
  "nprobe (modify p f w) = nprobe w"
  "nai (modify p f w) = nai w"
  "trace (modify p f w) = trace w"
  by (simp_all add: modify_def)

lemma StoreIncident_sel [simp]:
  "heap (snd (StoreIncident env p w)) = heap w"
  "incidents (snd (StoreIncident env p w)) = (incidents w)(ID (heap w p) \<mapsto> p)"
  "fixes (snd (StoreIncident env p w))
     = (if learnable (heap w p) then (fixes w)(Type (heap w p) := Resolution (heap w p))
        else fixes w)"
  "nsave (snd (StoreIncident env p w)) = nsave w + 1"
  "machine (snd (StoreIncident env p w)) = machine w"
  "nprobe (snd (StoreIncident env p w)) = nprobe w"
  "nai (snd (StoreIncident env p w)) = nai w"
  "trace (snd (StoreIncident env p w))
     = trace w @ (if learnable (heap w p) then [LearnFix (Type (heap w p))] else [])"
  by (simp_all add: StoreIncident_def save_def Let_def)

lemma UpdateIncidentStatus_hit:
  "incidents w ident = Some p \<Longrightarrow> status \<noteq> StatusResolved \<Longrightarrow>
   snd (UpdateIncidentStatus env ident status w) = (assignStatus p status w)\<lparr>nsave := nsave w + 1\<rparr>"
  by (simp add: UpdateIncidentStatus_def save_def Let_def)

lemma chooseAnalysis_sel [simp]:
  "heap (snd (chooseAnalysis env p w)) = heap w"
  "incidents (snd (chooseAnalysis env p w)) = incidents w"
  "fixes (snd (chooseAnalysis env p w)) = fixes w"
  "nsave (snd (chooseAnalysis env p w)) = nsave w"
  "machine (snd (chooseAnalysis env p w)) = machine w"
  "nprobe (snd (chooseAnalysis env p w)) = nprobe w"
  "nai (snd (chooseAnalysis env p w)) = nai w + (if useAI env then 1 else 0)"
  "trace (snd (chooseAnalysis env p w)) = trace w @ (if useAI env then [DiagnosisCall] else [])"
  by (simp_all add: chooseAnalysis_def AnalyzeIncident_def Let_def
      split: ai_reply.splits list.splits sum.splits prod.splits)

lemma verifyResolution_sel [simp]:
  "fst (verifyResolution env w) = verified env (nprobe w)"
  "heap (snd (verifyResolution env w)) = heap w"
  "incidents (snd (verifyResolution env w)) = incidents w"
  "fixes (snd (verifyResolution env w)) = fixes w"
  "nsave (snd (verifyResolution env w)) = nsave w"
  "nprobe (snd (verifyResolution env w)) = nprobe w + probes_run env (nprobe w)"
  "nai (snd (verifyResolution env w)) = nai w"
  "trace (snd (verifyResolution env w))
     = trace w @ map Probe (take (probes_run env (nprobe w))
                 [probe env (nprobe w), probe env (nprobe w + 1), probe env (nprobe w + 2)])"
  by (simp_all add: verifyResolution_closed Let_def probes_run_def verified_def)

section \<open>The diagnosis path\<close>

lemma chooseAnalysis_fst [simp]:
  "fst (chooseAnalysis env p w) = analysis_plan env (nai w) (Type (heap w p))"
  by (simp add: chooseAnalysis_def AnalyzeIncident_def analysis_plan_def Let_def
      split: ai_reply.splits list.splits sum.splits prod.splits)

lemma ExecuteFix_success:
  "snd (fst (ExecuteFix env ai m)) = None \<Longrightarrow> Success (fst (fst (ExecuteFix env ai m)))"
proof -
  define r where "r =
    (if aiFixType ai = ''restart'' then executeRestart env (FixSteps ai) m
     else if aiFixType ai = ''config'' then executeConfigFix env (FixSteps ai) m
     else if aiFixType ai = ''code'' then executeCodeFix env ai m
     else (Some (''unknown fix type: '' @ aiFixType ai), m))"
  obtain eo m' where r: "r = (eo, m')"
    by (cases r)
  have "snd (fst (ExecuteFix env ai m)) = eo \<and> Success (fst (fst (ExecuteFix env ai m))) = (eo = None)"
    unfolding ExecuteFix_def Let_def r_def [symmetric] r
    by (cases eo) simp_all
  then show "snd (fst (ExecuteFix env ai m)) = None \<Longrightarrow> Success (fst (fst (ExecuteFix env ai m)))"
    by simp
qed

lemma verified_probes:
  "verified env n \<Longrightarrow>
   take (probes_run env n) [probe env n, probe env (Suc n), probe env (Suc (Suc n))]
     = [True, True, True]"
  by (simp add: verified_def probes_run_def)

lemma diagnosis_path_sel:
  assumes hit: "incidents w (ID (heap w p)) = Some p"
  shows "trace (snd (diagnosis_path env p w))
       = trace w @ [SetStatus p StatusAnalyzing, SetStatus p StatusAnalyzing]
           @ (if useAI env then [DiagnosisCall] else [])
           @ [SetStatus p StatusFixing, SetStatus p StatusFixing]
           @ (case dp_err env p w of
                Some e \<Rightarrow> [SetStatus p StatusFailed]
              | None \<Rightarrow>
                  map Probe (take (probes_run env (nprobe w))
                    [probe env (nprobe w), probe env (nprobe w + 1), probe env (nprobe w + 2)])
                  @ (if verified env (nprobe w)
                     then [SetStatus p StatusResolved, LearnFix (Type (heap w p))]
                     else [SetStatus p StatusFailed]))"
    and "Status (heap (snd (diagnosis_path env p w)) p)
           = (if dp_err env p w = None \<and> verified env (nprobe w)
              then StatusResolved else StatusFailed)"
    and "ID (heap (snd (diagnosis_path env p w)) p) = ID (heap w p)"
    and "Type (heap (snd (diagnosis_path env p w)) p) = Type (heap w p)"
    and "UsedCachedFix (heap (snd (diagnosis_path env p w)) p) = UsedCachedFix (heap w p)"
    and "q \<noteq> p \<Longrightarrow> heap (snd (diagnosis_path env p w)) q = heap w q"
    and "incidents (snd (diagnosis_path env p w)) = incidents w"
    and "fixes (snd (diagnosis_path env p w))
           = (if dp_err env p w = None \<and> verified env (nprobe w)
              then (fixes w)(Type (heap w p) \<mapsto> dp_res env p w) else fixes w)"
    and "nai (snd (diagnosis_path env p w)) = nai w + (if useAI env then 1 else 0)"
    and "nprobe (snd (diagnosis_path env p w))
           = nprobe w + (if dp_err env p w = None then probes_run env (nprobe w) else 0)"
    and "Resolution (heap (snd (diagnosis_path env p w)) p)
           = (if dp_err env p w = None then Some (dp_res env p w) else Resolution (heap w p))"
    and "Diagnosis (heap (snd (diagnosis_path env p w)) p)
           = aiDiagnosis (analysis_plan env (nai w) (Type (heap w p)))"
    and "fst (diagnosis_path env p w)
           = (case dp_err env p w of
                None \<Rightarrow> None
              | Some e \<Rightarrow> Some (''failed to execute fix: '' @ e))"
  using hit ExecuteFix_success [of env "analysis_plan env (nai w) (Type (heap w p))" "machine w"]
  unfolding dp_err_def dp_res_def dp_exec_def
  by (cases "snd (fst (ExecuteFix env (analysis_plan env (nai w) (Type (heap w p))) (machine w)))";
      cases "verified env (nprobe w)";
      simp add: diagnosis_path_def Let_def split_beta UpdateIncidentStatus_hit learnable_def
          map_upd_triv verified_probes)+

lemma dp_res_success: "dp_err env p w = None \<Longrightarrow> Success (dp_res env p w)"
  unfolding dp_err_def dp_res_def dp_exec_def by (rule ExecuteFix_success)

section \<open>The paths of processIncident\<close>

lemma status_assignments_append [simp]:
  "status_assignments p (tr @ tr') = status_assignments p tr @ status_assignments p tr'"
  by (induction p tr rule: status_assignments.induct) auto

lemma status_assignments_probes [simp]: "status_assignments p (map Probe bs) = []"
  by (induction bs) auto

lemma cached_attempt_sel [simp]:
  "fst (cached_attempt env p c w)
     = (fst (ApplyCachedFix env c (machine w)) = None \<and> verified env (nprobe w))"
  "heap (snd (cached_attempt env p c w)) = (heap w)(p := (heap w p)\<lparr>UsedCachedFix := True\<rparr>)"
  "incidents (snd (cached_attempt env p c w)) = incidents w"
  "fixes (snd (cached_attempt env p c w)) = fixes w"
  "nai (snd (cached_attempt env p c w)) = nai w"
  "nprobe (snd (cached_attempt env p c w))
     = nprobe w + (if fst (ApplyCachedFix env c (machine w)) = None
                   then probes_run env (nprobe w) else 0)"
  "trace (snd (cached_attempt env p c w))
     = trace w @ (if fst (ApplyCachedFix env c (machine w)) = None
                  then map Probe (take (probes_run env (nprobe w))
                         [probe env (nprobe w), probe env (nprobe w + 1), probe env (nprobe w + 2)])
                  else [])"
  by (cases "fst (ApplyCachedFix env c (machine w))";
      simp add: cached_attempt_def Let_def split_beta)+

lemma processIncident_no_cache:
  "fixes w (Type (heap w p)) = None \<Longrightarrow> \<not> learnable (heap w p) \<Longrightarrow>
   processIncident env p w = diagnosis_path env p (snd (StoreIncident env p w))"
  by (simp add: processIncident_def GetLearnedFix_def Let_def)

lemma processIncident_cache_failed:
  "fixes w (Type (heap w p)) = Some c \<Longrightarrow> \<not> learnable (heap w p) \<Longrightarrow>
   \<not> (fst (ApplyCachedFix env c (machine w)) = None \<and> verified env (nprobe w)) \<Longrightarrow>
   processIncident env p w
     = diagnosis_path env p (snd (cached_attempt env p c (snd (StoreIncident env p w))))"
  by (auto simp: processIncident_def GetLearnedFix_def Let_def split_beta)

lemma processIncident_cache_ok:
  "fixes w (Type (heap w p)) = Some c \<Longrightarrow> \<not> learnable (heap w p) \<Longrightarrow>
   fst (ApplyCachedFix env c (machine w)) = None \<Longrightarrow> verified env (nprobe w) \<Longrightarrow>
   processIncident env p w
     = (let w3 = snd (cached_attempt env p c (snd (StoreIncident env p w)));
            w4 = assignStatus p StatusResolved w3;
            w5 = modify p (\<lambda>i. i\<lparr>ResolvedAt := Some (clock (machine w4)),
                                  Resolution := Some c\<rparr>) w4
        in (None, snd (StoreIncident env p w5)))"
  by (simp add: processIncident_def GetLearnedFix_def Let_def split_beta)

lemma detected_not_learnable: "Status i = StatusDetected \<Longrightarrow> \<not> learnable i"
  by (simp add: learnable_def)

lemma diagnosis_path_statuses:
  assumes hit: "incidents w (ID (heap w p)) = Some p"
  shows "\<exists>tr fin. trace (snd (diagnosis_path env p w)) = trace w @ tr
      \<and> status_assignments p tr
          = [StatusAnalyzing, StatusAnalyzing, StatusFixing, StatusFixing, fin]
      \<and> terminal fin
      \<and> Status (heap (snd (diagnosis_path env p w)) p) = fin"
  unfolding diagnosis_path_sel(1,2) [OF hit]
  by (cases "dp_err env p w"; cases "verified env (nprobe w)"; cases "useAI env";
      simp add: terminal_def)

lemma processIncident_statuses:
  assumes det: "Status (heap w p) = StatusDetected"
  shows "\<exists>tr. trace (snd (processIncident env p w)) = trace w @ tr
      \<and> status_assignments p tr \<noteq> []
      \<and> lifecycle_ok (StatusDetected # status_assignments p tr)
      \<and> terminal (last (status_assignments p tr))
      \<and> Status (heap (snd (processIncident env p w)) p) = last (status_assignments p tr)"
proof -
  have nl: "\<not> learnable (heap w p)"
    using det by (rule detected_not_learnable)
  let ?w0 = "snd (StoreIncident env p w)"
  have t0: "trace ?w0 = trace w"
    using nl by simp
  show ?thesis
  proof (cases "fixes w (Type (heap w p))")
    case None
    have hit: "incidents ?w0 (ID (heap ?w0 p)) = Some p"
      by simp
    obtain tr fin where "trace (snd (diagnosis_path env p ?w0)) = trace ?w0 @ tr"
        "status_assignments p tr
           = [StatusAnalyzing, StatusAnalyzing, StatusFixing, StatusFixing, fin]"
        "terminal fin" "Status (heap (snd (diagnosis_path env p ?w0)) p) = fin"
      using diagnosis_path_statuses [OF hit] by blast
    then show ?thesis
      unfolding processIncident_no_cache [OF None nl] t0
      by (auto simp: terminal_def)
  next
    case (Some c)
    let ?w3 = "snd (cached_attempt env p c ?w0)"
    show ?thesis
    proof (cases "fst (ApplyCachedFix env c (machine w)) = None \<and> verified env (nprobe w)")
      case True
      then have a: "fst (ApplyCachedFix env c (machine w)) = None" and v: "verified env (nprobe w)"
        by simp_all
      show ?thesis
        unfolding processIncident_cache_ok [OF Some nl a v]
        using nl a v
        by (simp add: Let_def terminal_def learnable_def)
    next
      case False
      have hit: "incidents ?w3 (ID (heap ?w3 p)) = Some p"
        by simp
      obtain tr fin where d: "trace (snd (diagnosis_path env p ?w3)) = trace ?w3 @ tr"
          "status_assignments p tr
             = [StatusAnalyzing, StatusAnalyzing, StatusFixing, StatusFixing, fin]"
          "terminal fin" "Status (heap (snd (diagnosis_path env p ?w3)) p) = fin"
        using diagnosis_path_statuses [OF hit] by blast
      have "\<exists>pr. trace ?w3 = trace w @ map Probe pr"
        using nl by (cases "fst (ApplyCachedFix env c (machine w)) = None") auto
      then obtain pr where pr: "trace ?w3 = trace w @ map Probe pr"
        by blast
      have "trace (snd (diagnosis_path env p ?w3)) = trace w @ (map Probe pr @ tr)"
        using d(1) pr by simp
      moreover have "status_assignments p (map Probe pr @ tr)
             = [StatusAnalyzing, StatusAnalyzing, StatusFixing, StatusFixing, fin]"
        using d(2) by simp
      ultimately show ?thesis
        unfolding processIncident_cache_failed [OF Some nl False]
        using d(3,4) by (auto simp: terminal_def)
    qed
  qed
qed

section \<open>Plans of the diagnosis source\<close>

lemma parseResponse_rejects:
  "unmarshal env (cleanContent env content) = Inr response \<Longrightarrow> \<not> valid_plan response \<Longrightarrow>
   \<exists>err. parseResponse env content = Inl err"
  by (auto simp: parseResponse_def valid_plan_def validFixTypes_def Let_def)

lemma parseResponse_accepts:
  "unmarshal env (cleanContent env content) = Inr response \<Longrightarrow> valid_plan response \<Longrightarrow>
   parseResponse env content = Inr response"
  by (auto simp: parseResponse_def valid_plan_def validFixTypes_def Let_def)

lemma GetQuickAnalysis_valid: "valid_plan (GetQuickAnalysis ty)"
  by (simp add: GetQuickAnalysis_def valid_plan_def)

lemma invalid_plan_fallback:
  assumes "unmarshal env (cleanContent env content) = Inr response" and "\<not> valid_plan response"
    and "useAI env" and "openai env (nai w) = Choices (content # others)"
  shows "(\<exists>err. parseResponse env content = Inl err)
       \<and> (\<exists>err. fst (AnalyzeIncident env w) = Inl err)
       \<and> fst (chooseAnalysis env incident w) = GetQuickAnalysis (Type (heap w incident))
       \<and> valid_plan (GetQuickAnalysis ty)"
proof -
  obtain err where e: "parseResponse env content = Inl err"
    using parseResponse_rejects [OF assms(1,2)] by blast
  have "fst (AnalyzeIncident env w) = Inl (''failed to parse AI response: '' @ err)"
    using e assms(4) by (simp add: AnalyzeIncident_def Let_def)
  moreover have "fst (chooseAnalysis env incident w) = GetQuickAnalysis (Type (heap w incident))"
    using e assms(3,4) by (simp add: analysis_plan_def)
  ultimately show ?thesis
    using e GetQuickAnalysis_valid by simp
qed

section \<open>A cached fix that fails\<close>

lemma processIncident_cache_failed_facts:
  assumes det: "Status (heap w p) = StatusDetected"
    and c: "fixes w (Type (heap w p)) = Some c"
    and failed: "fst (ApplyCachedFix env c (machine w)) \<noteq> None
                 \<or> \<not> (probe env (nprobe w) \<and> probe env (nprobe w + 1) \<and> probe env (nprobe w + 2))"
  shows "processIncident env p w
           = diagnosis_path env p (snd (cached_attempt env p c (snd (StoreIncident env p w))))
       \<and> UsedCachedFix (heap (snd (cached_attempt env p c (snd (StoreIncident env p w)))) p)
       \<and> UsedCachedFix (heap (snd (processIncident env p w)) p)
       \<and> ID (heap (snd (processIncident env p w)) p) = ID (heap w p)
       \<and> incidents (snd (processIncident env p w)) = (incidents w)(ID (heap w p) \<mapsto> p)
       \<and> (\<forall>q. q \<noteq> p \<longrightarrow> heap (snd (processIncident env p w)) q = heap w q)
       \<and> (\<exists>tr tr'. trace (snd (processIncident env p w))
                      = trace w @ tr @ SetStatus p StatusAnalyzing # tr')"
proof -
  have nl: "\<not> learnable (heap w p)"
    using det by (rule detected_not_learnable)
  have f: "\<not> (fst (ApplyCachedFix env c (machine w)) = None \<and> verified env (nprobe w))"
    using failed by (auto simp: verified_def)
  let ?w3 = "snd (cached_attempt env p c (snd (StoreIncident env p w)))"
  have hit: "incidents ?w3 (ID (heap ?w3 p)) = Some p"
    by simp
  have eq: "processIncident env p w = diagnosis_path env p ?w3"
    by (rule processIncident_cache_failed [OF c nl f])
  have tr: "\<exists>tr tr'. trace (snd (diagnosis_path env p ?w3))
                      = trace w @ tr @ SetStatus p StatusAnalyzing # tr'"
    unfolding diagnosis_path_sel(1) [OF hit] using nl
    by (cases "fst (ApplyCachedFix env c (machine w)) = None") auto
  show ?thesis
    unfolding eq using tr
    by (simp add: diagnosis_path_sel(3,5,6,7) [OF hit])
qed

section \<open>Writes to the learned fixes\<close>

lemma LearnFix_notin_probes [simp]: "LearnFix ty \<notin> set (map Probe bs)"
  by auto

lemma DiagnosisCall_notin_probes [simp]: "DiagnosisCall \<notin> set (map Probe bs)"
  by auto

lemma diagnosis_path_learn:
  assumes hit: "incidents w (ID (heap w p)) = Some p"
  shows "\<exists>tr. trace (snd (diagnosis_path env p w)) = trace w @ tr
      \<and> (\<forall>ty. LearnFix ty \<in> set tr \<longrightarrow> ty = Type (heap w p))
      \<and> (if LearnFix (Type (heap w p)) \<in> set tr
         then Status (heap (snd (diagnosis_path env p w)) p) = StatusResolved
            \<and> (\<exists>r. Resolution (heap (snd (diagnosis_path env p w)) p) = Some r \<and> Success r
                  \<and> fixes (snd (diagnosis_path env p w)) = (fixes w)(Type (heap w p) \<mapsto> r))
            \<and> (\<exists>tr0. tr = tr0 @ [Probe True, Probe True, Probe True,
                                   SetStatus p StatusResolved, LearnFix (Type (heap w p))])
         else fixes (snd (diagnosis_path env p w)) = fixes w)"
proof (cases "dp_err env p w = None \<and> verified env (nprobe w)")
  case True
  define tr0 where "tr0 = [SetStatus p StatusAnalyzing, SetStatus p StatusAnalyzing]
           @ (if useAI env then [DiagnosisCall] else [])
           @ [SetStatus p StatusFixing, SetStatus p StatusFixing]"
  define tr where "tr = tr0 @ [Probe True, Probe True, Probe True,
                     SetStatus p StatusResolved, LearnFix (Type (heap w p))]"
  have l0: "\<forall>ty. LearnFix ty \<notin> set tr0"
    unfolding tr0_def by auto
  have t: "trace (snd (diagnosis_path env p w)) = trace w @ tr"
    unfolding diagnosis_path_sel(1) [OF hit] tr_def tr0_def
    using True by (simp add: verified_probes)
  have only: "\<forall>ty. LearnFix ty \<in> set tr \<longrightarrow> ty = Type (heap w p)"
    unfolding tr_def using l0 by auto
  have mem: "LearnFix (Type (heap w p)) \<in> set tr"
    unfolding tr_def by simp
  have st: "Status (heap (snd (diagnosis_path env p w)) p) = StatusResolved"
    unfolding diagnosis_path_sel(2) [OF hit] using True by simp
  have res: "\<exists>r. Resolution (heap (snd (diagnosis_path env p w)) p) = Some r \<and> Success r
                  \<and> fixes (snd (diagnosis_path env p w)) = (fixes w)(Type (heap w p) \<mapsto> r)"
    unfolding diagnosis_path_sel(8,11) [OF hit] using True by (simp add: dp_res_success)
  have tail: "\<exists>tr0. tr = tr0 @ [Probe True, Probe True, Probe True,
                                 SetStatus p StatusResolved, LearnFix (Type (heap w p))]"
    unfolding tr_def by blast
  have branch: "Status (heap (snd (diagnosis_path env p w)) p) = StatusResolved
            \<and> (\<exists>r. Resolution (heap (snd (diagnosis_path env p w)) p) = Some r \<and> Success r
                  \<and> fixes (snd (diagnosis_path env p w)) = (fixes w)(Type (heap w p) \<mapsto> r))
            \<and> (\<exists>tr0. tr = tr0 @ [Probe True, Probe True, Probe True,
                                   SetStatus p StatusResolved, LearnFix (Type (heap w p))])"
    using st res tail by (intro conjI)
  show ?thesis
  proof (intro exI [of _ tr] conjI)
    show "trace (snd (diagnosis_path env p w)) = trace w @ tr"
      by (rule t)
    show "\<forall>ty. LearnFix ty \<in> set tr \<longrightarrow> ty = Type (heap w p)"
      by (rule only)
    show "if LearnFix (Type (heap w p)) \<in> set tr
         then Status (heap (snd (diagnosis_path env p w)) p) = StatusResolved
            \<and> (\<exists>r. Resolution (heap (snd (diagnosis_path env p w)) p) = Some r \<and> Success r
                  \<and> fixes (snd (diagnosis_path env p w)) = (fixes w)(Type (heap w p) \<mapsto> r))
            \<and> (\<exists>tr0. tr = tr0 @ [Probe True, Probe True, Probe True,
                                   SetStatus p StatusResolved, LearnFix (Type (heap w p))])
         else fixes (snd (diagnosis_path env p w)) = fixes w"
      using mem branch by (simp only: if_True)
  qed
next
  case False
  define tr where "tr = [SetStatus p StatusAnalyzing, SetStatus p StatusAnalyzing]
           @ (if useAI env then [DiagnosisCall] else [])
           @ [SetStatus p StatusFixing, SetStatus p StatusFixing]
           @ (case dp_err env p w of
                Some e \<Rightarrow> [SetStatus p StatusFailed]
              | None \<Rightarrow>
                  map Probe (take (probes_run env (nprobe w))
                    [probe env (nprobe w), probe env (nprobe w + 1), probe env (nprobe w + 2)])
                  @ [SetStatus p StatusFailed])"
  have t: "trace (snd (diagnosis_path env p w)) = trace w @ tr"
    unfolding diagnosis_path_sel(1) [OF hit] tr_def using False
    by (cases "dp_err env p w") simp_all
  have n: "\<forall>ty. LearnFix ty \<notin> set tr"
    unfolding tr_def by (cases "dp_err env p w") auto
  have same: "fixes (snd (diagnosis_path env p w)) = fixes w"
    unfolding diagnosis_path_sel(8) [OF hit] using False by auto
  have notmem: "LearnFix (Type (heap w p)) \<notin> set tr"
    using n by blast
  show ?thesis
  proof (intro exI [of _ tr] conjI)
    show "trace (snd (diagnosis_path env p w)) = trace w @ tr"
      by (rule t)
    show "\<forall>ty. LearnFix ty \<in> set tr \<longrightarrow> ty = Type (heap w p)"
      using n by blast
    show "if LearnFix (Type (heap w p)) \<in> set tr
         then Status (heap (snd (diagnosis_path env p w)) p) = StatusResolved
            \<and> (\<exists>r. Resolution (heap (snd (diagnosis_path env p w)) p) = Some r \<and> Success r
                  \<and> fixes (snd (diagnosis_path env p w)) = (fixes w)(Type (heap w p) \<mapsto> r))
            \<and> (\<exists>tr0. tr = tr0 @ [Probe True, Probe True, Probe True,
                                   SetStatus p StatusResolved, LearnFix (Type (heap w p))])
         else fixes (snd (diagnosis_path env p w)) = fixes w"
      using notmem same by (simp only: if_False)
  qed
qed

lemma cache_write_ok_prefix:
  assumes "cache_write_ok p w1 w' tr" "Type (heap w1 p) = Type (heap w p)" "fixes w1 = fixes w"
  shows "cache_write_ok p w w' (map Probe pr @ tr)"
proof (cases "LearnFix (Type (heap w p)) \<in> set tr")
  case True
  then obtain tr0 where "tr = tr0 @ [Probe True, Probe True, Probe True,
                                SetStatus p StatusResolved, LearnFix (Type (heap w p))]"
    using assms by (auto simp: cache_write_ok_def)
  then have "map Probe pr @ tr = (map Probe pr @ tr0) @ [Probe True, Probe True, Probe True,
                                SetStatus p StatusResolved, LearnFix (Type (heap w p))]"
    by simp
  then have "\<exists>tr0. map Probe pr @ tr = tr0 @ [Probe True, Probe True, Probe True,
                                SetStatus p StatusResolved, LearnFix (Type (heap w p))]"
    by blast
  moreover have "LearnFix (Type (heap w p)) \<in> set (map Probe pr @ tr)"
    using True by simp
  ultimately show ?thesis
    using assms True unfolding cache_write_ok_def by (simp only: if_True; simp)
next
  case False
  then have "LearnFix (Type (heap w p)) \<notin> set (map Probe pr @ tr)"
    by auto
  then show ?thesis
    using assms False unfolding cache_write_ok_def by (simp only: if_False; simp)
qed

lemma diagnosis_path_cache_write:
  assumes hit: "incidents w (ID (heap w p)) = Some p"
  shows "\<exists>tr. trace (snd (diagnosis_path env p w)) = trace w @ tr
      \<and> (\<forall>ty. LearnFix ty \<in> set tr \<longrightarrow> ty = Type (heap w p))
      \<and> cache_write_ok p w (snd (diagnosis_path env p w)) tr"
  unfolding cache_write_ok_def by (rule diagnosis_path_learn [OF hit])

lemma processIncident_cache_write:
  assumes det: "Status (heap w p) = StatusDetected"
  shows "\<exists>tr. trace (snd (processIncident env p w)) = trace w @ tr
      \<and> (\<forall>ty. LearnFix ty \<in> set tr \<longrightarrow> ty = Type (heap w p))
      \<and> cache_write_ok p w (snd (processIncident env p w)) tr"
proof -
  have nl: "\<not> learnable (heap w p)"
    using det by (rule detected_not_learnable)
  let ?w0 = "snd (StoreIncident env p w)"
  have w0: "trace ?w0 = trace w" "fixes ?w0 = fixes w" "heap ?w0 = heap w"
    using nl by simp_all
  show ?thesis
  proof (cases "fixes w (Type (heap w p))")
    case None
    have hit: "incidents ?w0 (ID (heap ?w0 p)) = Some p"
      by simp
    obtain tr where tr: "trace (snd (diagnosis_path env p ?w0)) = trace ?w0 @ tr"
        "\<forall>ty. LearnFix ty \<in> set tr \<longrightarrow> ty = Type (heap ?w0 p)"
        "cache_write_ok p ?w0 (snd (diagnosis_path env p ?w0)) tr"
      using diagnosis_path_cache_write [OF hit] by blast
    have "cache_write_ok p w (snd (diagnosis_path env p ?w0)) tr"
      using tr(3) unfolding cache_write_ok_def w0 .
    with tr(1,2) show ?thesis
      unfolding processIncident_no_cache [OF None nl] w0 by blast
  next
    case (Some c)
    let ?w3 = "snd (cached_attempt env p c ?w0)"
    show ?thesis
    proof (cases "fst (ApplyCachedFix env c (machine w)) = None \<and> verified env (nprobe w)")
      case True
      then have a: "fst (ApplyCachedFix env c (machine w)) = None" and v: "verified env (nprobe w)"
        by simp_all
      define tr where "tr = [Probe True, Probe True, Probe True, SetStatus p StatusResolved]
                 @ (if Success c then [LearnFix (Type (heap w p))] else [])"
      have t: "trace (snd (processIncident env p w)) = trace w @ tr"
        unfolding processIncident_cache_ok [OF Some nl a v] tr_def
        using det a v by (simp add: Let_def learnable_def verified_probes)
      have st: "Status (heap (snd (processIncident env p w)) p) = StatusResolved"
        and rs: "Resolution (heap (snd (processIncident env p w)) p) = Some c"
        and fx: "fixes (snd (processIncident env p w))
                  = (if Success c then (fixes w)(Type (heap w p) \<mapsto> c) else fixes w)"
        unfolding processIncident_cache_ok [OF Some nl a v]
        using det by (simp_all add: Let_def learnable_def)
      have only: "\<forall>ty. LearnFix ty \<in> set tr \<longrightarrow> ty = Type (heap w p)"
        unfolding tr_def by auto
      have "cache_write_ok p w (snd (processIncident env p w)) tr"
      proof (cases "Success c")
        case True
        have "LearnFix (Type (heap w p)) \<in> set tr"
          unfolding tr_def using True by simp
        moreover have "\<exists>tr0. tr = tr0 @ [Probe True, Probe True, Probe True,
                                SetStatus p StatusResolved, LearnFix (Type (heap w p))]"
          unfolding tr_def using True by simp
        ultimately show ?thesis
          unfolding cache_write_ok_def using st rs fx True by (simp only: if_True; simp)
      next
        case False
        have "LearnFix (Type (heap w p)) \<notin> set tr"
          unfolding tr_def using False by simp
        then show ?thesis
          unfolding cache_write_ok_def using fx False by (simp only: if_False; simp)
      qed
      with t only show ?thesis by blast
    next
      case False
      have hit: "incidents ?w3 (ID (heap ?w3 p)) = Some p"
        by simp
      obtain tr where tr: "trace (snd (diagnosis_path env p ?w3)) = trace ?w3 @ tr"
          "\<forall>ty. LearnFix ty \<in> set tr \<longrightarrow> ty = Type (heap ?w3 p)"
          "cache_write_ok p ?w3 (snd (diagnosis_path env p ?w3)) tr"
        using diagnosis_path_cache_write [OF hit] by blast
      have "\<exists>pr. trace ?w3 = trace w @ map Probe pr"
        using nl by (cases "fst (ApplyCachedFix env c (machine w)) = None") auto
      then obtain pr where pr: "trace ?w3 = trace w @ map Probe pr"
        by blast
      have ty: "Type (heap ?w3 p) = Type (heap w p)" and fx: "fixes ?w3 = fixes w"
        using nl by simp_all
      have "trace (snd (diagnosis_path env p ?w3)) = trace w @ (map Probe pr @ tr)"
        using tr(1) pr by simp
      moreover have "\<forall>ty. LearnFix ty \<in> set (map Probe pr @ tr) \<longrightarrow> ty = Type (heap w p)"
        using tr(2) ty by auto
      moreover have "cache_write_ok p w (snd (diagnosis_path env p ?w3)) (map Probe pr @ tr)"
        using tr(3) ty fx by (rule cache_write_ok_prefix)
      ultimately show ?thesis
        unfolding processIncident_cache_failed [OF Some nl False] by blast
    qed
  qed
qed

lemma resolved_leaves_fix:
  assumes det: "Status (heap w p) = StatusDetected"
    and res: "Status (heap (snd (processIncident env p w)) p) = StatusResolved"
  shows "\<exists>r. fixes (snd (processIncident env p w)) (Type (heap w p)) = Some r"
proof -
  have nl: "\<not> learnable (heap w p)"
    using det by (rule detected_not_learnable)
  let ?w0 = "snd (StoreIncident env p w)"
  show ?thesis
  proof (cases "fixes w (Type (heap w p))")
    case None
    have hit: "incidents ?w0 (ID (heap ?w0 p)) = Some p"
      by simp
    show ?thesis
      using res nl unfolding processIncident_no_cache [OF None nl]
        diagnosis_path_sel(2,8) [OF hit]
      by (auto split: if_splits)
  next
    case (Some c)
    let ?w3 = "snd (cached_attempt env p c ?w0)"
    show ?thesis
    proof (cases "fst (ApplyCachedFix env c (machine w)) = None \<and> verified env (nprobe w)")
      case True
      then have a: "fst (ApplyCachedFix env c (machine w)) = None" and v: "verified env (nprobe w)"
        by simp_all
      show ?thesis
        unfolding processIncident_cache_ok [OF Some nl a v]
        using det Some by (simp add: Let_def learnable_def)
    next
      case False
      have hit: "incidents ?w3 (ID (heap ?w3 p)) = Some p"
        by simp
      show ?thesis
        using nl Some unfolding processIncident_cache_failed [OF Some nl False]
          diagnosis_path_sel(8) [OF hit]
        by simp
    qed
  qed
qed

lemma cached_fix_used:
  assumes det: "Status (heap w p) = StatusDetected"
    and c: "fixes w (Type (heap w p)) = Some c"
  shows "UsedCachedFix (heap (snd (processIncident env p w)) p)
       \<and> (fst (ApplyCachedFix env c (machine w)) = None
            \<and> probe env (nprobe w) \<and> probe env (nprobe w + 1) \<and> probe env (nprobe w + 2)
          \<longrightarrow> nai (snd (processIncident env p w)) = nai w
            \<and> Status (heap (snd (processIncident env p w)) p) = StatusResolved
            \<and> (\<exists>tr. trace (snd (processIncident env p w)) = trace w @ tr
                    \<and> DiagnosisCall \<notin> set tr))"
proof -
  have nl: "\<not> learnable (heap w p)"
    using det by (rule detected_not_learnable)
  let ?w0 = "snd (StoreIncident env p w)"
  let ?w3 = "snd (cached_attempt env p c ?w0)"
  show ?thesis
  proof (cases "fst (ApplyCachedFix env c (machine w)) = None \<and> verified env (nprobe w)")
    case True
    then have a: "fst (ApplyCachedFix env c (machine w)) = None" and v: "verified env (nprobe w)"
      by simp_all
    have "\<exists>tr. trace (snd (processIncident env p w)) = trace w @ tr \<and> DiagnosisCall \<notin> set tr"
      unfolding processIncident_cache_ok [OF c nl a v]
      using det a v by (simp add: Let_def learnable_def verified_probes)
    moreover have "UsedCachedFix (heap (snd (processIncident env p w)) p)"
      and "nai (snd (processIncident env p w)) = nai w"
      and "Status (heap (snd (processIncident env p w)) p) = StatusResolved"
      unfolding processIncident_cache_ok [OF c nl a v]
      by (simp_all add: Let_def)
    ultimately show ?thesis
      by blast
  next
    case False
    have hit: "incidents ?w3 (ID (heap ?w3 p)) = Some p"
      by simp
    have "UsedCachedFix (heap (snd (processIncident env p w)) p)"
      unfolding processIncident_cache_failed [OF c nl False] diagnosis_path_sel(5) [OF hit]
      by simp
    then show ?thesis
      using False by (auto simp: verified_def)
  qed
qed

section \<open>Restarting the target service\<close>

lemma Stop_not_running [simp]: "isRunning (service (snd (Stop env m))) = False"
  by (simp add: Stop_def Let_def)

lemma Start_when_stopped:
  "\<not> isRunning (service m) \<Longrightarrow> fst (Start m) = None"
  by (simp add: Start_def Let_def)

lemma executeRestart_ok [simp]: "fst (executeRestart env steps m) = None"
proof -
  have "fst (Start (sleep 500 (snd (Stop env m)))) = None"
    by (rule Start_when_stopped) (simp add: sleep_def)
  then show ?thesis
    by (cases "Start (sleep 500 (snd (Stop env m)))") (simp add: executeRestart_def)
qed

lemma Restart_ok [simp]: "fst (Restart env m) = None"
proof -
  have "fst (Start (sleep 1000 (snd (Stop env m)))) = None"
    by (rule Start_when_stopped) (simp add: sleep_def)
  then show ?thesis
    using Stop_not_running [of env m]
    by (cases "Stop env m") (simp add: Restart_def)
qed

lemma ApplyCachedFix_ok:
  "FixType c \<in> {''restart'', ''config'', ''code''} \<Longrightarrow> fst (ApplyCachedFix env c m) = None"
  by (auto simp: ApplyCachedFix_def executeConfigFix_def)

lemma ApplyCachedFix_unknown:
  "FixType c \<notin> {''restart'', ''config'', ''code''} \<Longrightarrow> fst (ApplyCachedFix env c m) \<noteq> None"
  by (auto simp: ApplyCachedFix_def)

lemma ExecuteFix_result:
  "fst (fst (ExecuteFix env ai m))
     = \<lparr>FixType = aiFixType ai, Description = aiDiagnosis ai, Steps = FixSteps ai,
        Code = aiCode ai, Success = (snd (fst (ExecuteFix env ai m)) = None)\<rparr>"
  "aiFixType ai \<in> {''restart'', ''config'', ''code''} \<Longrightarrow> snd (fst (ExecuteFix env ai m)) = None"
proof -
  define r where "r =
    (if aiFixType ai = ''restart'' then executeRestart env (FixSteps ai) m
     else if aiFixType ai = ''config'' then executeConfigFix env (FixSteps ai) m
     else if aiFixType ai = ''code'' then executeCodeFix env ai m
     else (Some (''unknown fix type: '' @ aiFixType ai), m))"
  obtain eo m' where r: "r = (eo, m')"
    by (cases r)
  have e: "snd (fst (ExecuteFix env ai m)) = eo"
    unfolding ExecuteFix_def Let_def r_def [symmetric] r
    by (cases eo) simp_all
  show "fst (fst (ExecuteFix env ai m))
     = \<lparr>FixType = aiFixType ai, Description = aiDiagnosis ai, Steps = FixSteps ai,
        Code = aiCode ai, Success = (snd (fst (ExecuteFix env ai m)) = None)\<rparr>"
    unfolding ExecuteFix_def Let_def r_def [symmetric] r
    by (cases eo) simp_all
  show "snd (fst (ExecuteFix env ai m)) = None"
    if "aiFixType ai \<in> {''restart'', ''config'', ''code''}"
  proof -
    have "fst r = None"
      using that unfolding r_def by (auto simp: executeConfigFix_def executeCodeFix_def)
    then show ?thesis
      using e r by simp
  qed
qed

section \<open>Runs of the example process\<close>

lemma example_plan:
  "analysis_plan (example_env n) k ServiceDown = GetQuickAnalysis ServiceDown"
  by (simp add: analysis_plan_def example_env_def parseResponse_def reboot_plan_def
      validFixTypes_def Let_def)

lemma example_world_sel [simp]:
  "Status (heap example_world a) = StatusDetected"
  "Type (heap example_world a) = ServiceDown"
  "fixes example_world = Map.empty"
  "nprobe example_world = 0"
  "nai example_world = 0"
  "trace example_world = []"
  by (simp_all add: example_world_def example_incident_def)

lemma example_verified [simp]: "verified (example_env n) k = (k + 2 < n)"
  by (auto simp: verified_def example_env_def)

lemma example_probes_run [simp]:
  "k + 2 < n \<Longrightarrow> probes_run (example_env n) k = 3"
  "n \<le> k \<Longrightarrow> probes_run (example_env n) k = 1"
  by (auto simp: probes_run_def example_env_def)

lemma example_useAI [simp]: "useAI (example_env n)"
  by (simp add: example_env_def)

lemma example_first_run:
  assumes "3 \<le> n"
  defines "w1 \<equiv> snd (processIncident (example_env n) 0 example_world)"
  shows "Status (heap w1 0) = StatusResolved"
    and "\<exists>c. fixes w1 ServiceDown = Some c \<and> FixType c = ''restart''"
    and "heap w1 (Suc 0) = heap example_world (Suc 0)"
    and "nprobe w1 = 3" and "nai w1 = 1"
proof -
  let ?env = "example_env n"
  let ?w0 = "snd (StoreIncident ?env 0 example_world)"
  have nl: "\<not> learnable (heap example_world 0)"
    by (rule detected_not_learnable) simp
  have none: "fixes example_world (Type (heap example_world 0)) = None"
    by simp
  have eq: "processIncident ?env 0 example_world = diagnosis_path ?env 0 ?w0"
    by (rule processIncident_no_cache [OF none nl])
  have hit: "incidents ?w0 (ID (heap ?w0 0)) = Some 0"
    by simp
  have plan: "analysis_plan ?env (nai ?w0) (Type (heap ?w0 0)) = GetQuickAnalysis ServiceDown"
    by (simp add: example_plan)
  have err: "dp_err ?env 0 ?w0 = None"
    unfolding dp_err_def dp_exec_def plan
    by (rule ExecuteFix_result(2)) (simp add: GetQuickAnalysis_def)
  have res: "FixType (dp_res ?env 0 ?w0) = ''restart''"
    unfolding dp_res_def dp_exec_def plan
    by (subst ExecuteFix_result(1)) (simp add: GetQuickAnalysis_def)
  have v: "verified ?env (nprobe ?w0)"
    using assms(1) by simp
  show "Status (heap w1 0) = StatusResolved"
    unfolding w1_def eq diagnosis_path_sel(2) [OF hit] using err v by simp
  show "\<exists>c. fixes w1 ServiceDown = Some c \<and> FixType c = ''restart''"
    unfolding w1_def eq diagnosis_path_sel(8) [OF hit] using err v res by simp
  show "heap w1 (Suc 0) = heap example_world (Suc 0)"
    unfolding w1_def eq by (simp add: diagnosis_path_sel(6) [OF hit])
  show "nprobe w1 = 3"
    unfolding w1_def eq diagnosis_path_sel(10) [OF hit] using err assms(1) by simp
  show "nai w1 = 1"
    unfolding w1_def eq diagnosis_path_sel(9) [OF hit] by simp
qed


lemma after_first_facts:
  assumes "3 \<le> n"
  shows "Status (heap (after_first n) 0) = StatusResolved"
    and "\<exists>c. fixes (after_first n) ServiceDown = Some c \<and> FixType c = ''restart''"
    and "heap (after_first n) (Suc 0) = heap example_world (Suc 0)"
    and "nprobe (after_first n) = 3" and "nai (after_first n) = 1"
  unfolding after_first_def using example_first_run [OF assms] by simp_all

lemma after_second_call:
  "UsedCachedFix (heap (after_second 3) (Suc 0)) \<and> nai (after_second 3) = nai (after_first 3) + 1"
proof -
  let ?env = "example_env 3"
  let ?w1 = "after_first 3"
  obtain c where c: "fixes ?w1 ServiceDown = Some c" "FixType c = ''restart''"
    using after_first_facts(2) [of 3] by auto
  have h1: "heap ?w1 (Suc 0) = heap example_world (Suc 0)"
    using after_first_facts(3) [of 3] by simp
  have det: "Status (heap ?w1 (Suc 0)) = StatusDetected"
    unfolding h1 by simp
  have ty: "Type (heap ?w1 (Suc 0)) = ServiceDown"
    unfolding h1 by simp
  have c': "fixes ?w1 (Type (heap ?w1 (Suc 0))) = Some c"
    unfolding ty by (rule c(1))
  have np: "nprobe ?w1 = 3"
    using after_first_facts(4) [of 3] by simp
  have fail: "fst (ApplyCachedFix ?env c (machine ?w1)) \<noteq> None
       \<or> \<not> (probe ?env (nprobe ?w1) \<and> probe ?env (nprobe ?w1 + 1) \<and> probe ?env (nprobe ?w1 + 2))"
    unfolding np by (simp add: example_env_def)
  let ?w3 = "snd (cached_attempt ?env (Suc 0) c (snd (StoreIncident ?env (Suc 0) ?w1)))"
  have eq: "processIncident ?env (Suc 0) ?w1 = diagnosis_path ?env (Suc 0) ?w3"
    and used: "UsedCachedFix (heap (snd (processIncident ?env (Suc 0) ?w1)) (Suc 0))"
    using processIncident_cache_failed_facts [OF det c' fail] by blast+
  have hit: "incidents ?w3 (ID (heap ?w3 (Suc 0))) = Some (Suc 0)"
    by simp
  have "nai (snd (processIncident ?env (Suc 0) ?w1)) = nai ?w1 + 1"
    unfolding eq diagnosis_path_sel(9) [OF hit] by simp
  with used show ?thesis
    unfolding after_second_def by simp
qed

lemma cached_fix_fallthrough:
  assumes det: "Status (heap w p) = StatusDetected"
    and c: "fixes w (Type (heap w p)) = Some c"
    and failed: "\<not> (fst (ApplyCachedFix env c (machine w)) = None
                 \<and> probe env (nprobe w) \<and> probe env (nprobe w + 1) \<and> probe env (nprobe w + 2))"
  shows "nai (snd (processIncident env p w)) = nai w + (if useAI env then 1 else 0)
       \<and> (\<exists>tr tr'. trace (snd (processIncident env p w))
                      = trace w @ tr
                        @ [SetStatus p StatusAnalyzing, SetStatus p StatusAnalyzing]
                        @ (if useAI env then [DiagnosisCall] else [])
                        @ [SetStatus p StatusFixing, SetStatus p StatusFixing] @ tr'
                  \<and> DiagnosisCall \<notin> set tr \<and> DiagnosisCall \<notin> set tr')
       \<and> terminal (Status (heap (snd (processIncident env p w)) p))"
proof -
  have nl: "\<not> learnable (heap w p)"
    using det by (rule detected_not_learnable)
  have f: "\<not> (fst (ApplyCachedFix env c (machine w)) = None \<and> verified env (nprobe w))"
    using failed by (simp add: verified_def)
  let ?w3 = "snd (cached_attempt env p c (snd (StoreIncident env p w)))"
  have hit: "incidents ?w3 (ID (heap ?w3 p)) = Some p"
    by simp
  have eq: "processIncident env p w = diagnosis_path env p ?w3"
    by (rule processIncident_cache_failed [OF c nl f])
  obtain pr where pr: "trace ?w3 = trace w @ map Probe pr"
    using nl by (cases "fst (ApplyCachedFix env c (machine w)) = None") auto
  define tr' where "tr' = (case dp_err env p ?w3 of
                Some e \<Rightarrow> [SetStatus p StatusFailed]
              | None \<Rightarrow>
                  map Probe (take (probes_run env (nprobe ?w3))
                    [probe env (nprobe ?w3), probe env (nprobe ?w3 + 1), probe env (nprobe ?w3 + 2)])
                  @ (if verified env (nprobe ?w3)
                     then [SetStatus p StatusResolved, LearnFix (Type (heap ?w3 p))]
                     else [SetStatus p StatusFailed]))"
  have nd: "DiagnosisCall \<notin> set tr'"
    unfolding tr'_def by (cases "dp_err env p ?w3") auto
  have t: "trace (snd (processIncident env p w))
             = trace w @ map Probe pr
                 @ [SetStatus p StatusAnalyzing, SetStatus p StatusAnalyzing]
                 @ (if useAI env then [DiagnosisCall] else [])
                 @ [SetStatus p StatusFixing, SetStatus p StatusFixing] @ tr'"
    unfolding eq diagnosis_path_sel(1) [OF hit] pr tr'_def by simp
  have n: "nai (snd (processIncident env p w)) = nai w + (if useAI env then 1 else 0)"
    unfolding eq diagnosis_path_sel(9) [OF hit] by simp
  have s: "terminal (Status (heap (snd (processIncident env p w)) p))"
    unfolding eq diagnosis_path_sel(2) [OF hit] by (simp add: terminal_def)
  have "\<exists>tr tr'. trace (snd (processIncident env p w))
                      = trace w @ tr
                        @ [SetStatus p StatusAnalyzing, SetStatus p StatusAnalyzing]
                        @ (if useAI env then [DiagnosisCall] else [])
                        @ [SetStatus p StatusFixing, SetStatus p StatusFixing] @ tr'
                  \<and> DiagnosisCall \<notin> set tr \<and> DiagnosisCall \<notin> set tr'"
    using t nd DiagnosisCall_notin_probes [of pr] by blast
  with n s show ?thesis
    by blast
qed

section \<open>Reuse of a learned fix\<close>

text \<open>
  C4, as stated, fails.  In the example process with three healthy probes, the incident at
  address 0 is resolved after a passed verification; the incident at address 1 has the
  same type and is processed next, its \<open>UsedCachedFix\<close> is set, the cached fix fails
  verification, and the diagnosis source is called: \<open>nai\<close>, the number of requests to it,
  grows by one.
\<close>

theorem next_incident_calls_diagnosis_source:
  "Status (heap (after_first 3) 0) = StatusResolved
   \<and> Type (heap (after_first 3) (Suc 0)) = Type (heap (after_first 3) 0)
   \<and> Status (heap (after_first 3) (Suc 0)) = StatusDetected
   \<and> UsedCachedFix (heap (after_second 3) (Suc 0))
   \<and> nai (after_second 3) = nai (after_first 3) + 1"
proof -
  have h1: "heap (after_first 3) (Suc 0) = heap example_world (Suc 0)"
    using after_first_facts(3) [of 3] by simp
  have "Type (heap (after_first 3) 0) = ServiceDown"
    unfolding after_first_def
    by (simp add: processIncident_no_cache detected_not_learnable diagnosis_path_sel(4))
  then show ?thesis
    using after_first_facts(1) [of 3] after_second_call by (simp add: h1)
qed


text \<open>
  C4, amended.  After an incident of class C has been resolved, processing the next
  incident of class C, in any state \<open>w'\<close> holding the learned fixes the first run left,
  finds a learned fix \<open>c\<close> for C and sets \<open>UsedCachedFix\<close> on that incident.  When the cached
  fix is applied without error and the three verification probes pass, the run resolves the
  incident and makes no call to the diagnosis source.  Otherwise the run goes on with the
  diagnosis path: it assigns \<open>StatusAnalyzing\<close> and \<open>StatusFixing\<close>, ends in a terminal
  status, and between the two it calls the diagnosis source exactly once when \<open>useAI\<close> is
  set and not at all when it is not.
\<close>

theorem cached_fix_reused_or_diagnosed:
  assumes "Status (heap w p) = StatusDetected"
    and "Status (heap (snd (processIncident env p w)) p) = StatusResolved"
    and "fixes w' = fixes (snd (processIncident env p w))"
    and "Type (heap w' q) = Type (heap w p)"
    and "Status (heap w' q) = StatusDetected"
  shows "\<exists>c. GetLearnedFix (Type (heap w' q)) w' = Some c
         \<and> UsedCachedFix (heap (snd (processIncident env' q w')) q)
         \<and> (if fst (ApplyCachedFix env' c (machine w')) = None
                \<and> probe env' (nprobe w') \<and> probe env' (nprobe w' + 1) \<and> probe env' (nprobe w' + 2)
            then nai (snd (processIncident env' q w')) = nai w'
               \<and> Status (heap (snd (processIncident env' q w')) q) = StatusResolved
               \<and> (\<exists>tr. trace (snd (processIncident env' q w')) = trace w' @ tr
                       \<and> DiagnosisCall \<notin> set tr)
            else nai (snd (processIncident env' q w')) = nai w' + (if useAI env' then 1 else 0)
               \<and> (\<exists>tr tr'. trace (snd (processIncident env' q w'))
                      = trace w' @ tr
                        @ [SetStatus q StatusAnalyzing, SetStatus q StatusAnalyzing]
                        @ (if useAI env' then [DiagnosisCall] else [])
                        @ [SetStatus q StatusFixing, SetStatus q StatusFixing] @ tr'
                      \<and> DiagnosisCall \<notin> set tr \<and> DiagnosisCall \<notin> set tr')
               \<and> terminal (Status (heap (snd (processIncident env' q w')) q)))"
proof -
  obtain c where "fixes (snd (processIncident env p w)) (Type (heap w p)) = Some c"
    using resolved_leaves_fix [OF assms(1,2)] by blast
  then have c: "fixes w' (Type (heap w' q)) = Some c"
    using assms(3,4) by simp
  have g: "GetLearnedFix (Type (heap w' q)) w' = Some c"
    using c by (simp add: GetLearnedFix_def)
  have u: "UsedCachedFix (heap (snd (processIncident env' q w')) q)"
    using cached_fix_used [OF assms(5) c, of env'] by blast
  show ?thesis
  proof (cases "fst (ApplyCachedFix env' c (machine w')) = None
                \<and> probe env' (nprobe w') \<and> probe env' (nprobe w' + 1) \<and> probe env' (nprobe w' + 2)")
    case True
    then have "nai (snd (processIncident env' q w')) = nai w'
               \<and> Status (heap (snd (processIncident env' q w')) q) = StatusResolved
               \<and> (\<exists>tr. trace (snd (processIncident env' q w')) = trace w' @ tr
                       \<and> DiagnosisCall \<notin> set tr)"
      using cached_fix_used [OF assms(5) c, of env'] by blast
    with g u True show ?thesis
      by (intro exI [of _ c]) (simp only: if_True simp_thms)
  next
    case False
    have "nai (snd (processIncident env' q w')) = nai w' + (if useAI env' then 1 else 0)
               \<and> (\<exists>tr tr'. trace (snd (processIncident env' q w'))
                      = trace w' @ tr
                        @ [SetStatus q StatusAnalyzing, SetStatus q StatusAnalyzing]
                        @ (if useAI env' then [DiagnosisCall] else [])
                        @ [SetStatus q StatusFixing, SetStatus q StatusFixing] @ tr'
                      \<and> DiagnosisCall \<notin> set tr \<and> DiagnosisCall \<notin> set tr')
               \<and> terminal (Status (heap (snd (processIncident env' q w')) q))"
      by (rule cached_fix_fallthrough [OF assms(5) c False])
    with g u False show ?thesis
      by (intro exI [of _ c]) (simp only: if_False simp_thms)
  qed
qed

theorem cached_fix_reused_or_diagnosed_witness:
  "Status (heap example_world 0) = StatusDetected
   \<and> Status (heap (after_first 6) 0) = StatusResolved
   \<and> Type (heap (after_first 6) (Suc 0)) = Type (heap example_world 0)
   \<and> Status (heap (after_first 6) (Suc 0)) = StatusDetected
   \<and> (\<exists>c. GetLearnedFix (Type (heap (after_first 6) (Suc 0))) (after_first 6) = Some c)
   \<and> UsedCachedFix (heap (after_second 6) (Suc 0))
   \<and> nai (after_second 6) = nai (after_first 6)
   \<and> Status (heap (after_second 6) (Suc 0)) = StatusResolved"
proof -
  let ?env = "example_env 6"
  let ?w1 = "after_first 6"
  have h1: "heap ?w1 (Suc 0) = heap example_world (Suc 0)"
    using after_first_facts(3) [of 6] by simp
  have a1: "Status (heap example_world 0) = StatusDetected"
    by simp
  have a2: "Status (heap (snd (processIncident ?env 0 example_world)) 0) = StatusResolved"
    using after_first_facts(1) [of 6] by (simp add: after_first_def)
  have a3: "fixes ?w1 = fixes (snd (processIncident ?env 0 example_world))"
    by (simp add: after_first_def)
  have a4: "Type (heap ?w1 (Suc 0)) = Type (heap example_world 0)"
    unfolding h1 by simp
  have a5: "Status (heap ?w1 (Suc 0)) = StatusDetected"
    unfolding h1 by simp
  obtain c where c: "GetLearnedFix (Type (heap ?w1 (Suc 0))) ?w1 = Some c"
      "UsedCachedFix (heap (snd (processIncident ?env (Suc 0) ?w1)) (Suc 0))"
      "if fst (ApplyCachedFix ?env c (machine ?w1)) = None
          \<and> probe ?env (nprobe ?w1) \<and> probe ?env (nprobe ?w1 + 1) \<and> probe ?env (nprobe ?w1 + 2)
       then nai (snd (processIncident ?env (Suc 0) ?w1)) = nai ?w1
          \<and> Status (heap (snd (processIncident ?env (Suc 0) ?w1)) (Suc 0)) = StatusResolved
          \<and> (\<exists>tr. trace (snd (processIncident ?env (Suc 0) ?w1)) = trace ?w1 @ tr
                  \<and> DiagnosisCall \<notin> set tr)
       else nai (snd (processIncident ?env (Suc 0) ?w1)) = nai ?w1 + (if useAI ?env then 1 else 0)
          \<and> (\<exists>tr tr'. trace (snd (processIncident ?env (Suc 0) ?w1))
                 = trace ?w1 @ tr
                   @ [SetStatus (Suc 0) StatusAnalyzing, SetStatus (Suc 0) StatusAnalyzing]
                   @ (if useAI ?env then [DiagnosisCall] else [])
                   @ [SetStatus (Suc 0) StatusFixing, SetStatus (Suc 0) StatusFixing] @ tr'
                 \<and> DiagnosisCall \<notin> set tr \<and> DiagnosisCall \<notin> set tr')
          \<and> terminal (Status (heap (snd (processIncident ?env (Suc 0) ?w1)) (Suc 0)))"
    using cached_fix_reused_or_diagnosed [OF a1 a2 a3 a4 a5, of ?env] by blast
  obtain c0 where c0: "fixes ?w1 ServiceDown = Some c0" "FixType c0 = ''restart''"
    using after_first_facts(2) [of 6] by auto
  have "c = c0"
    using c(1) c0(1) unfolding h1 by (simp add: GetLearnedFix_def)
  then have ok: "fst (ApplyCachedFix ?env c (machine ?w1)) = None"
    using c0(2) by (simp add: ApplyCachedFix_ok)
  have pr: "probe ?env (nprobe ?w1) \<and> probe ?env (nprobe ?w1 + 1) \<and> probe ?env (nprobe ?w1 + 2)"
    using after_first_facts(4) [of 6] by (simp add: example_env_def)
  have cond: "fst (ApplyCachedFix ?env c (machine ?w1)) = None
          \<and> probe ?env (nprobe ?w1) \<and> probe ?env (nprobe ?w1 + 1) \<and> probe ?env (nprobe ?w1 + 2)"
    using ok pr by simp
  have res: "nai (snd (processIncident ?env (Suc 0) ?w1)) = nai ?w1
          \<and> Status (heap (snd (processIncident ?env (Suc 0) ?w1)) (Suc 0)) = StatusResolved"
    using c(3) cond by (simp only: if_True simp_thms)
  show ?thesis
    using a1 a2 a4 a5 c(1,2) res unfolding after_second_def after_first_def [symmetric]
    by blast
qed

section \<open>Rejected plans and the fallback\<close>

text \<open>
  C6. A response of the diagnosis source that decodes to a plan with an empty diagnosis, a
  fix kind outside restart, config and code (the empty one included) or no steps is
  rejected by \<open>parseResponse\<close>, \<open>AnalyzeIncident\<close> returns an error, and the orchestrator
  takes the rule-based plan for the incident's type instead.  For every incident type
  \<open>ty\<close>, one of the four constants or not, the rule-based plan has a diagnosis, an allowed
  fix kind and steps; \<open>GetQuickAnalysis\<close> is total and has no error result.
\<close>

theorem invalid_plan_is_replaced_by_fallback:
  assumes "unmarshal env (cleanContent env content) = Inr response" and "\<not> valid_plan response"
    and "useAI env" and "openai env (nai w) = Choices (content # others)"
  shows "(\<exists>err. parseResponse env content = Inl err)
       \<and> (\<exists>err. fst (AnalyzeIncident env w) = Inl err)
       \<and> fst (chooseAnalysis env incident w) = GetQuickAnalysis (Type (heap w incident))
       \<and> valid_plan (GetQuickAnalysis ty)"
  using assms by (rule invalid_plan_fallback)

theorem invalid_plan_is_replaced_by_fallback_witness:
  "unmarshal (example_env 3) (cleanContent (example_env 3) ''(a plan of fix kind reboot)'') = Inr reboot_plan
   \<and> \<not> valid_plan reboot_plan
   \<and> (\<exists>err. parseResponse (example_env 3) ''(a plan of fix kind reboot)'' = Inl err)
   \<and> fst (chooseAnalysis (example_env 3) 0 example_world) = GetQuickAnalysis ServiceDown
   \<and> valid_plan (GetQuickAnalysis ''NO_SUCH_CLASS'')"
proof -
  have a1: "unmarshal (example_env 3) (cleanContent (example_env 3) ''(a plan of fix kind reboot)'')
              = Inr reboot_plan"
    by (simp add: example_env_def)
  have a2: "\<not> valid_plan reboot_plan"
    by (simp add: valid_plan_def reboot_plan_def)
  have a3: "useAI (example_env 3)"
    by simp
  have a4: "openai (example_env 3) (nai example_world) = Choices (''(a plan of fix kind reboot)'' # [])"
    by (simp add: example_env_def)
  show ?thesis
    using a1 a2 invalid_plan_is_replaced_by_fallback [OF a1 a2 a3 a4, of 0 "''NO_SUCH_CLASS''"]
    by simp
qed


section \<open>The life cycle of an incident\<close>

text \<open>
  C8. Every incident the detector creates has status \<open>StatusDetected\<close>.  When
  \<open>processIncident\<close> runs on a detected incident, the statuses assigned to it, in order
  and after the initial \<open>StatusDetected\<close>, only move forward along
  Detected, Analyzing, Fixing, Resolved or Failed (stages may be skipped); no assignment
  follows \<open>StatusResolved\<close> or \<open>StatusFailed\<close>, and the run ends in one of the two.
\<close>

theorem status_only_moves_forward:
  assumes "Status (heap w p) = StatusDetected"
  shows "(\<exists>inc. createIncident t health = Some inc \<and> Status inc = StatusDetected)
       \<and> (\<exists>tr. trace (snd (processIncident env p w)) = trace w @ tr
             \<and> status_assignments p tr \<noteq> []
             \<and> lifecycle_ok (StatusDetected # status_assignments p tr)
             \<and> terminal (last (status_assignments p tr))
             \<and> Status (heap (snd (processIncident env p w)) p) = last (status_assignments p tr))"
  using processIncident_statuses [OF assms, of env] createIncident_fields [of t health]
  by blast

theorem status_only_moves_forward_witness:
  "Status (heap example_world 0) = StatusDetected
   \<and> (\<exists>inc. createIncident (example_tick False 0) unhealthy_sample = Some inc
          \<and> Status inc = StatusDetected)
   \<and> (\<exists>tr. trace (after_first 3) = tr
          \<and> status_assignments 0 tr \<noteq> []
          \<and> lifecycle_ok (StatusDetected # status_assignments 0 tr)
          \<and> terminal (last (status_assignments 0 tr))
          \<and> Status (heap (after_first 3) 0) = last (status_assignments 0 tr))"
proof -
  have a: "Status (heap example_world 0) = StatusDetected"
    by simp
  show ?thesis
    using a status_only_moves_forward [OF a, of "example_tick False 0" unhealthy_sample
              "example_env 3"]
    unfolding after_first_def by simp
qed


section \<open>A cached fix that does not resolve the incident\<close>

lemma cache_failed_diagnosis:
  assumes det: "Status (heap w p) = StatusDetected"
    and c: "fixes w (Type (heap w p)) = Some c"
    and failed: "fst (ApplyCachedFix env c (machine w)) \<noteq> None
                 \<or> \<not> (probe env (nprobe w) \<and> probe env (nprobe w + 1) \<and> probe env (nprobe w + 2))"
  shows "let w3 = snd (cached_attempt env p c (snd (StoreIncident env p w)));
             plan = fst (chooseAnalysis env p w3);
             ex = ExecuteFix env plan (machine w3);
             err = snd (fst ex);
             n = nprobe w3;
             k = (if \<not> probe env n then 1 else if \<not> probe env (n + 1) then 2 else 3);
             v = (probe env n \<and> probe env (n + 1) \<and> probe env (n + 2));
             r = processIncident env p w
         in trace (snd r)
              = trace w3 @ [SetStatus p StatusAnalyzing, SetStatus p StatusAnalyzing]
                  @ (if useAI env then [DiagnosisCall] else [])
                  @ [SetStatus p StatusFixing, SetStatus p StatusFixing]
                  @ (case err of
                       Some e \<Rightarrow> [SetStatus p StatusFailed]
                     | None \<Rightarrow>
                         map Probe (take k [probe env n, probe env (n + 1), probe env (n + 2)])
                         @ (if v then [SetStatus p StatusResolved, LearnFix (Type (heap w p))]
                            else [SetStatus p StatusFailed]))
          \<and> nai (snd r) = nai w + (if useAI env then 1 else 0)
          \<and> Diagnosis (heap (snd r) p) = aiDiagnosis plan
          \<and> Resolution (heap (snd r) p)
              = (if err = None then Some (fst (fst ex)) else Resolution (heap w p))
          \<and> Status (heap (snd r) p) = (if err = None \<and> v then StatusResolved else StatusFailed)
          \<and> fst r = (case err of None \<Rightarrow> None
                               | Some e \<Rightarrow> Some (''failed to execute fix: '' @ e))"
proof -
  have nl: "\<not> learnable (heap w p)"
    using det by (rule detected_not_learnable)
  have f: "\<not> (fst (ApplyCachedFix env c (machine w)) = None \<and> verified env (nprobe w))"
    using failed by (auto simp: verified_def)
  let ?w3 = "snd (cached_attempt env p c (snd (StoreIncident env p w)))"
  have hit: "incidents ?w3 (ID (heap ?w3 p)) = Some p"
    by simp
  have eq: "processIncident env p w = diagnosis_path env p ?w3"
    by (rule processIncident_cache_failed [OF c nl f])
  have w3: "nai ?w3 = nai w" "Type (heap ?w3 p) = Type (heap w p)"
      "Resolution (heap ?w3 p) = Resolution (heap w p)"
    by simp_all
  show ?thesis
    unfolding Let_def eq diagnosis_path_sel(1,2,9,11,12,13) [OF hit]
      dp_err_def dp_res_def dp_exec_def probes_run_def verified_def chooseAnalysis_fst w3
    by (intro conjI refl)
qed

text \<open>
  C9. When a learned fix exists for the type of a detected incident and applying it
  returns an error or the verification after it fails, the same run of \<open>processIncident\<close>
  goes on with the diagnosis path on the same incident: the incident keeps its address
  and its ID, the store registers that address under that ID and nothing else, no other
  incident record is touched, and \<open>UsedCachedFix\<close> is true when the diagnosis path starts
  and when the run ends.  The diagnosis path is run in full from the state \<open>w3\<close> the cached
  attempt left: the statuses \<open>StatusAnalyzing\<close> and \<open>StatusFixing\<close> are assigned, the plan
  \<open>plan\<close> is obtained (with one call to the diagnosis source when \<open>useAI\<close> is set) and its
  diagnosis is recorded on the incident, \<open>ExecuteFix\<close> is run on the plan; on its error the
  incident fails and the error is returned, otherwise its resolution is attached, the
  verification loop runs and the incident ends resolved or failed by its result.
\<close>

theorem failed_cached_fix_runs_diagnosis_path:
  assumes "Status (heap w p) = StatusDetected"
    and "fixes w (Type (heap w p)) = Some c"
    and "fst (ApplyCachedFix env c (machine w)) \<noteq> None
         \<or> \<not> (probe env (nprobe w) \<and> probe env (nprobe w + 1) \<and> probe env (nprobe w + 2))"
  shows "(processIncident env p w
           = diagnosis_path env p (snd (cached_attempt env p c (snd (StoreIncident env p w))))
       \<and> UsedCachedFix (heap (snd (cached_attempt env p c (snd (StoreIncident env p w)))) p)
       \<and> UsedCachedFix (heap (snd (processIncident env p w)) p)
       \<and> ID (heap (snd (processIncident env p w)) p) = ID (heap w p)
       \<and> incidents (snd (processIncident env p w)) = (incidents w)(ID (heap w p) \<mapsto> p)
       \<and> (\<forall>q. q \<noteq> p \<longrightarrow> heap (snd (processIncident env p w)) q = heap w q)
       \<and> (\<exists>tr tr'. trace (snd (processIncident env p w))
                      = trace w @ tr @ SetStatus p StatusAnalyzing # tr'))
     \<and> (let w3 = snd (cached_attempt env p c (snd (StoreIncident env p w)));
             plan = fst (chooseAnalysis env p w3);
             ex = ExecuteFix env plan (machine w3);
             err = snd (fst ex);
             n = nprobe w3;
             k = (if \<not> probe env n then 1 else if \<not> probe env (n + 1) then 2 else 3);
             v = (probe env n \<and> probe env (n + 1) \<and> probe env (n + 2));
             r = processIncident env p w
         in trace (snd r)
              = trace w3 @ [SetStatus p StatusAnalyzing, SetStatus p StatusAnalyzing]
                  @ (if useAI env then [DiagnosisCall] else [])
                  @ [SetStatus p StatusFixing, SetStatus p StatusFixing]
                  @ (case err of
                       Some e \<Rightarrow> [SetStatus p StatusFailed]
                     | None \<Rightarrow>
                         map Probe (take k [probe env n, probe env (n + 1), probe env (n + 2)])
                         @ (if v then [SetStatus p StatusResolved, LearnFix (Type (heap w p))]
                            else [SetStatus p StatusFailed]))
          \<and> nai (snd r) = nai w + (if useAI env then 1 else 0)
          \<and> Diagnosis (heap (snd r) p) = aiDiagnosis plan
          \<and> Resolution (heap (snd r) p)
              = (if err = None then Some (fst (fst ex)) else Resolution (heap w p))
          \<and> Status (heap (snd r) p) = (if err = None \<and> v then StatusResolved else StatusFailed)
          \<and> fst r = (case err of None \<Rightarrow> None
                               | Some e \<Rightarrow> Some (''failed to execute fix: '' @ e)))"
  using processIncident_cache_failed_facts [OF assms] cache_failed_diagnosis [OF assms]
  by (rule conjI)

theorem failed_cached_fix_runs_diagnosis_path_witness:
  "Status (heap (after_first 3) (Suc 0)) = StatusDetected
   \<and> (\<exists>c. fixes (after_first 3) (Type (heap (after_first 3) (Suc 0))) = Some c)
   \<and> \<not> probe (example_env 3) (nprobe (after_first 3))
   \<and> UsedCachedFix (heap (after_second 3) (Suc 0))
   \<and> ID (heap (after_second 3) (Suc 0)) = ID (heap (after_first 3) (Suc 0))
   \<and> incidents (after_second 3)
        = (incidents (after_first 3))(ID (heap (after_first 3) (Suc 0)) \<mapsto> Suc 0)
   \<and> heap (after_second 3) 0 = heap (after_first 3) 0
   \<and> nai (after_second 3) = nai (after_first 3) + 1
   \<and> Diagnosis (heap (after_second 3) (Suc 0)) = aiDiagnosis (GetQuickAnalysis ServiceDown)
   \<and> Status (heap (after_second 3) (Suc 0)) = StatusFailed"
proof -
  let ?env = "example_env 3"
  let ?w1 = "after_first 3"
  obtain c where c: "fixes ?w1 ServiceDown = Some c"
    using after_first_facts(2) [of 3] by auto
  have h1: "heap ?w1 (Suc 0) = heap example_world (Suc 0)"
    using after_first_facts(3) [of 3] by simp
  have det: "Status (heap ?w1 (Suc 0)) = StatusDetected"
    unfolding h1 by simp
  have c': "fixes ?w1 (Type (heap ?w1 (Suc 0))) = Some c"
    unfolding h1 using c by simp
  have np: "\<not> probe ?env (nprobe ?w1)"
    using after_first_facts(4) [of 3] by (simp add: example_env_def)
  then have fail: "fst (ApplyCachedFix ?env c (machine ?w1)) \<noteq> None
       \<or> \<not> (probe ?env (nprobe ?w1) \<and> probe ?env (nprobe ?w1 + 1) \<and> probe ?env (nprobe ?w1 + 2))"
    by simp
  let ?w3 = "snd (cached_attempt ?env (Suc 0) c (snd (StoreIncident ?env (Suc 0) ?w1)))"
  let ?plan = "fst (chooseAnalysis ?env (Suc 0) ?w3)"
  let ?err = "snd (fst (ExecuteFix ?env ?plan (machine ?w3)))"
  note inst = failed_cached_fix_runs_diagnosis_path [OF det c' fail, unfolded Let_def]
  have old: "UsedCachedFix (heap (after_second 3) (Suc 0))
   \<and> ID (heap (after_second 3) (Suc 0)) = ID (heap (after_first 3) (Suc 0))
   \<and> incidents (after_second 3)
        = (incidents (after_first 3))(ID (heap (after_first 3) (Suc 0)) \<mapsto> Suc 0)
   \<and> (\<forall>q. q \<noteq> Suc 0 \<longrightarrow> heap (after_second 3) q = heap (after_first 3) q)"
    using inst unfolding after_second_def by blast
  have n: "nai (after_second 3) = nai ?w1 + (if useAI ?env then 1 else 0)"
    using inst unfolding after_second_def by blast
  have d: "Diagnosis (heap (after_second 3) (Suc 0)) = aiDiagnosis ?plan"
    using inst unfolding after_second_def by blast
  have s: "Status (heap (after_second 3) (Suc 0))
             = (if ?err = None \<and> (probe ?env (nprobe ?w3) \<and> probe ?env (nprobe ?w3 + 1)
                                   \<and> probe ?env (nprobe ?w3 + 2))
                then StatusResolved else StatusFailed)"
    using inst unfolding after_second_def by blast
  have plan: "?plan = GetQuickAnalysis ServiceDown"
    by (simp add: h1 example_plan)
  have "\<not> probe ?env (nprobe ?w3)"
    using after_first_facts(4) [of 3] by (simp add: example_env_def)
  then have s': "Status (heap (after_second 3) (Suc 0)) = StatusFailed"
    using s by simp
  show ?thesis
    using det c' np old n d plan s' by auto
qed

section \<open>The learned fixes\<close>

lemma processIncident_resolved_after_probes:
  assumes det: "Status (heap w p) = StatusDetected"
    and res: "Status (heap (snd (processIncident env p w)) p) = StatusResolved"
  shows "\<exists>tr0 rest. trace (snd (processIncident env p w))
           = trace w @ tr0 @ [Probe True, Probe True, Probe True, SetStatus p StatusResolved] @ rest"
proof -
  have nl: "\<not> learnable (heap w p)"
    using det by (rule detected_not_learnable)
  let ?w0 = "snd (StoreIncident env p w)"
  have t0: "trace ?w0 = trace w"
    using nl by simp
  have dp: "\<exists>tr0 rest. trace (snd (diagnosis_path env p v))
           = trace v @ tr0 @ [Probe True, Probe True, Probe True, SetStatus p StatusResolved] @ rest"
    if hit: "incidents v (ID (heap v p)) = Some p"
      and r: "Status (heap (snd (diagnosis_path env p v)) p) = StatusResolved" for v
  proof -
    have ok: "dp_err env p v = None" "verified env (nprobe v)"
      using r unfolding diagnosis_path_sel(2) [OF hit] by (auto split: if_splits)
    define tr0 where "tr0 = [SetStatus p StatusAnalyzing, SetStatus p StatusAnalyzing]
           @ (if useAI env then [DiagnosisCall] else [])
           @ [SetStatus p StatusFixing, SetStatus p StatusFixing]"
    have "trace (snd (diagnosis_path env p v))
           = trace v @ tr0 @ [Probe True, Probe True, Probe True, SetStatus p StatusResolved]
               @ [LearnFix (Type (heap v p))]"
      unfolding diagnosis_path_sel(1) [OF hit] tr0_def using ok by (simp add: verified_probes)
    then show ?thesis by blast
  qed
  show ?thesis
  proof (cases "fixes w (Type (heap w p))")
    case None
    have hit: "incidents ?w0 (ID (heap ?w0 p)) = Some p"
      by simp
    show ?thesis
      using dp [OF hit] res unfolding processIncident_no_cache [OF None nl] t0 by blast
  next
    case (Some c)
    let ?w3 = "snd (cached_attempt env p c ?w0)"
    show ?thesis
    proof (cases "fst (ApplyCachedFix env c (machine w)) = None \<and> verified env (nprobe w)")
      case True
      then have a: "fst (ApplyCachedFix env c (machine w)) = None" and v: "verified env (nprobe w)"
        by simp_all
      have "trace (snd (processIncident env p w))
              = trace w @ [] @ [Probe True, Probe True, Probe True, SetStatus p StatusResolved]
                  @ (if Success c then [LearnFix (Type (heap w p))] else [])"
        unfolding processIncident_cache_ok [OF Some nl a v]
        using det a v by (simp add: Let_def learnable_def verified_probes)
      then show ?thesis by blast
    next
      case False
      have hit: "incidents ?w3 (ID (heap ?w3 p)) = Some p"
        by simp
      obtain pr where pr: "trace ?w3 = trace w @ map Probe pr"
        using nl by (cases "fst (ApplyCachedFix env c (machine w)) = None") auto
      obtain tr0 rest where "trace (snd (diagnosis_path env p ?w3))
           = trace ?w3 @ tr0 @ [Probe True, Probe True, Probe True, SetStatus p StatusResolved] @ rest"
        using dp [OF hit] res unfolding processIncident_cache_failed [OF Some nl False] by blast
      then have "trace (snd (diagnosis_path env p ?w3))
           = trace w @ (map Probe pr @ tr0)
               @ [Probe True, Probe True, Probe True, SetStatus p StatusResolved] @ rest"
        using pr by simp
      then show ?thesis
        unfolding processIncident_cache_failed [OF Some nl False] by blast
    qed
  qed
qed

lemma no_cache_resolution_success:
  assumes det: "Status (heap w p) = StatusDetected"
    and none: "fixes w (Type (heap w p)) = None"
    and ok: "snd (fst (ExecuteFix env (analysis_plan env (nai w) (Type (heap w p))) (machine w)))
               = None"
  shows "\<exists>r. Resolution (heap (snd (processIncident env p w)) p) = Some r \<and> Success r"
proof -
  have nl: "\<not> learnable (heap w p)"
    using det by (rule detected_not_learnable)
  let ?w0 = "snd (StoreIncident env p w)"
  have hit: "incidents ?w0 (ID (heap ?w0 p)) = Some p"
    by simp
  have err: "dp_err env p ?w0 = None"
    unfolding dp_err_def dp_exec_def using ok by simp
  show ?thesis
    unfolding processIncident_no_cache [OF none nl] diagnosis_path_sel(11) [OF hit]
    using err dp_res_success [OF err] by simp
qed

text \<open>
  C7, as stated, fails in its remark on the success flag.  In the example process whose
  probes are all unhealthy, the fix for the incident at address 0 is applied without
  error, the first verification probe fails and the incident ends in \<open>StatusFailed\<close>; the
  resolution attached to it has \<open>Success\<close> true all the same, and nothing is learned.
\<close>

theorem success_flag_set_before_verification:
  "\<not> probe (example_env 0) 0
   \<and> Status (heap (after_first 0) 0) = StatusFailed
   \<and> map_option Success (Resolution (heap (after_first 0) 0)) = Some True
   \<and> fixes (after_first 0) = Map.empty"
proof -
  let ?env = "example_env 0"
  let ?w0 = "snd (StoreIncident ?env 0 example_world)"
  have nl: "\<not> learnable (heap example_world 0)"
    by (rule detected_not_learnable) simp
  have none: "fixes example_world (Type (heap example_world 0)) = None"
    by simp
  have eq: "processIncident ?env 0 example_world = diagnosis_path ?env 0 ?w0"
    by (rule processIncident_no_cache [OF none nl])
  have hit: "incidents ?w0 (ID (heap ?w0 0)) = Some 0"
    by simp
  have plan: "analysis_plan ?env (nai ?w0) (Type (heap ?w0 0)) = GetQuickAnalysis ServiceDown"
    by (simp add: example_plan)
  have err: "dp_err ?env 0 ?w0 = None"
    unfolding dp_err_def dp_exec_def plan
    by (rule ExecuteFix_result(2)) (simp add: GetQuickAnalysis_def)
  have v: "\<not> verified ?env (nprobe ?w0)"
    by simp
  have "Status (heap (after_first 0) 0) = StatusFailed"
    unfolding after_first_def eq diagnosis_path_sel(2) [OF hit] using v by simp
  moreover have "map_option Success (Resolution (heap (after_first 0) 0)) = Some True"
    unfolding after_first_def eq diagnosis_path_sel(11) [OF hit]
    using err dp_res_success [OF err] by simp
  moreover have "fixes (after_first 0) = Map.empty"
    unfolding after_first_def eq diagnosis_path_sel(8) [OF hit] using v nl by simp
  moreover have "\<not> probe ?env 0"
    by (simp add: example_env_def)
  ultimately show ?thesis
    by blast
qed

text \<open>
  C7, amended.  \<open>StoreIncident\<close> writes the resolution of an incident into the learned
  fixes only when the incident's status is \<open>StatusResolved\<close> and the resolution's \<open>Success\<close>
  is true; it then replaces the entry of the incident's type and leaves every other entry
  as it was (the learned fixes are a map: one entry for a type).  In a run of
  \<open>processIncident\<close> on a detected incident, a write can only be to the entry of that
  incident's type; if there is one, it comes right after three passing verification
  probes and the assignment of \<open>StatusResolved\<close>, and the entry written is the successful
  resolution attached to the incident; if there is none, the learned fixes are unchanged.
  \<open>Success\<close> is set by \<open>ExecuteFix\<close>, to true exactly when the fix was applied without
  error: on the diagnosis path the resolution attached then has \<open>Success\<close> true whatever
  the verification gives.  \<open>StatusResolved\<close> is what the orchestrator assigns only after
  three passing probes.
\<close>

theorem fix_cache_written_only_after_verification:
  assumes "Status (heap w p) = StatusDetected"
  shows "fixes (snd (StoreIncident env q v))
           = (case Resolution (heap v q) of
                None \<Rightarrow> fixes v
              | Some r \<Rightarrow>
                  if Status (heap v q) = StatusResolved \<and> Success r
                  then (fixes v)(Type (heap v q) \<mapsto> r) else fixes v)
       \<and> (\<exists>tr. trace (snd (processIncident env p w)) = trace w @ tr
             \<and> (\<forall>ty. LearnFix ty \<in> set tr \<longrightarrow> ty = Type (heap w p))
             \<and> (if LearnFix (Type (heap w p)) \<in> set tr
                then Status (heap (snd (processIncident env p w)) p) = StatusResolved
                   \<and> (\<exists>r. Resolution (heap (snd (processIncident env p w)) p) = Some r
                         \<and> Success r
                         \<and> fixes (snd (processIncident env p w))
                             = (fixes w)(Type (heap w p) \<mapsto> r))
                   \<and> (\<exists>tr0. tr = tr0 @ [Probe True, Probe True, Probe True,
                                          SetStatus p StatusResolved,
                                          LearnFix (Type (heap w p))])
                else fixes (snd (processIncident env p w)) = fixes w))
       \<and> Success (fst (fst (ExecuteFix env ai m))) = (snd (fst (ExecuteFix env ai m)) = None)
       \<and> (fixes w (Type (heap w p)) = None
            \<and> snd (fst (ExecuteFix env (analysis_plan env (nai w) (Type (heap w p)))
                           (machine w))) = None
          \<longrightarrow> (\<exists>r. Resolution (heap (snd (processIncident env p w)) p) = Some r \<and> Success r))
       \<and> (Status (heap (snd (processIncident env p w)) p) = StatusResolved
          \<longrightarrow> (\<exists>tr0 rest. trace (snd (processIncident env p w))
                   = trace w @ tr0 @ [Probe True, Probe True, Probe True,
                                      SetStatus p StatusResolved] @ rest))"
proof -
  have a: "fixes (snd (StoreIncident env q v))
           = (case Resolution (heap v q) of
                None \<Rightarrow> fixes v
              | Some r \<Rightarrow>
                  if Status (heap v q) = StatusResolved \<and> Success r
                  then (fixes v)(Type (heap v q) \<mapsto> r) else fixes v)"
    by (simp add: learnable_def split: option.splits)
  have b: "Success (fst (fst (ExecuteFix env ai m))) = (snd (fst (ExecuteFix env ai m)) = None)"
    by (subst ExecuteFix_result(1)) simp
  show ?thesis
    using a b processIncident_cache_write [OF assms, of env]
      no_cache_resolution_success [OF assms, of env]
      processIncident_resolved_after_probes [OF assms, of env]
    unfolding cache_write_ok_def by blast
qed

theorem fix_cache_written_only_after_verification_witness:
  "Status (heap example_world 0) = StatusDetected
   \<and> Status (heap (after_first 3) 0) = StatusResolved
   \<and> (\<exists>tr. trace (after_first 3) = tr
          \<and> LearnFix ServiceDown \<in> set tr
          \<and> (\<exists>r. Resolution (heap (after_first 3) 0) = Some r \<and> Success r
                \<and> fixes (after_first 3) = [ServiceDown \<mapsto> r])
          \<and> (\<exists>tr0. tr = tr0 @ [Probe True, Probe True, Probe True,
                                 SetStatus 0 StatusResolved, LearnFix ServiceDown]))"
proof -
  have a: "Status (heap example_world 0) = StatusDetected"
    by simp
  obtain tr where tr: "trace (after_first 3) = trace example_world @ tr"
     "if LearnFix (Type (heap example_world 0)) \<in> set tr
      then Status (heap (after_first 3) 0) = StatusResolved
         \<and> (\<exists>r. Resolution (heap (after_first 3) 0) = Some r \<and> Success r
               \<and> fixes (after_first 3)
                   = (fixes example_world)(Type (heap example_world 0) \<mapsto> r))
         \<and> (\<exists>tr0. tr = tr0 @ [Probe True, Probe True, Probe True,
                                SetStatus 0 StatusResolved,
                                LearnFix (Type (heap example_world 0))])
      else fixes (after_first 3) = fixes example_world"
    using fix_cache_written_only_after_verification [OF a, of "example_env 3"]
    unfolding after_first_def by blast
  obtain c where c: "fixes (after_first 3) ServiceDown = Some c"
    using after_first_facts(2) [of 3] by auto
  have mem: "LearnFix (Type (heap example_world 0)) \<in> set tr"
  proof (rule ccontr)
    assume "LearnFix (Type (heap example_world 0)) \<notin> set tr"
    then have "fixes (after_first 3) = fixes example_world"
      using tr(2) by (simp only: if_False)
    then show False
      using c by simp
  qed
  show ?thesis
    using a tr(1) tr(2) mem after_first_facts(1) [of 3] by simp
qed

end
